theory Spec2Isabelle
  imports Complex_Main "HOL-Library.Multiset" "HOL-Library.Finite_Map" "HOL-Library.Log_Nat"
begin

section \<open>JavaScript numbers\<close>

text \<open>
  A JavaScript number is a binary64 value: a finite one, modelled as the rational it
  denotes, or one of the three non-finite values. Division by zero, which JavaScript does
  not raise, yields \<open>PInf\<close>, \<open>NInf\<close> or \<open>NaN\<close> as in the language. The sign of
  zero is not modelled.
\<close>

datatype jsnum = Fin rat | PInf | NInf | NaN

text \<open>
  Rounding to binary64, as IEEE 754 multiplication and division do it: to the nearest
  value with a 53-bit significand, a tie going to the even significand; below the normal
  range, which starts at \<open>2 powi (- 1022)\<close>, the spacing stays \<open>2 powi (- 1074)\<close>; a
  result of magnitude \<open>2 ^ 1024\<close> or more overflows to an infinity. \<open>binexp x\<close> is the
  binary exponent of a non-zero rational, the integer \<open>e\<close> with
  \<open>2 powi e \<le> \<bar>x\<bar> < 2 powi (e + 1)\<close>, and \<open>rne\<close> rounds to the nearest integer, a
  tie to the even one.
\<close>

definition binexp :: "rat \<Rightarrow> int" where
  "binexp x =
     (let (p, q) = quotient_of \<bar>x\<bar>; d = bitlen p - bitlen q
      in if 2 powi d \<le> \<bar>x\<bar> then d else d - 1)"

definition rne :: "rat \<Rightarrow> int" where
  "rne y =
     (let f = \<lfloor>y\<rfloor>; r = y - of_int f
      in if r < 1 / 2 then f else if 1 / 2 < r then f + 1
         else if even f then f else f + 1)"

definition binary64 :: "rat \<Rightarrow> jsnum" where
  "binary64 x =
     (if x = 0 then Fin 0
      else
        let e = max (binexp x) (- 1022);
            q = 2 powi (e - 52);
            y = of_int (rne (x / q)) * q
        in if 2 ^ 1024 \<le> \<bar>y\<bar> then (if 0 < x then PInf else NInf) else Fin y)"

fun js_neg :: "jsnum \<Rightarrow> bool" where
  "js_neg (Fin a) = (a < 0)"
| "js_neg NInf = True"
| "js_neg PInf = False"
| "js_neg NaN = False"

text \<open>The operators \<open>*\<close> and \<open>/\<close>: the exact product or quotient of two finite numbers,
  rounded to binary64.\<close>

fun js_mul :: "jsnum \<Rightarrow> jsnum \<Rightarrow> jsnum" where
  "js_mul (Fin a) (Fin b) = binary64 (a * b)"
| "js_mul NaN y = NaN"
| "js_mul x NaN = NaN"
| "js_mul x y =
     (if x = Fin 0 \<or> y = Fin 0 then NaN
      else if js_neg x = js_neg y then PInf else NInf)"

fun js_div :: "jsnum \<Rightarrow> jsnum \<Rightarrow> jsnum" where
  "js_div (Fin a) (Fin b) =
     (if b = 0 then (if a = 0 then NaN else if 0 < a then PInf else NInf)
      else binary64 (a / b))"
| "js_div NaN y = NaN"
| "js_div x NaN = NaN"
| "js_div (Fin a) y = Fin 0"
| "js_div x (Fin b) = (if js_neg x = (b < 0) then PInf else NInf)"
| "js_div x y = NaN"

text \<open>The operator \<open>-\<close>; the difference of two finite numbers is taken exactly.\<close>

fun js_sub :: "jsnum \<Rightarrow> jsnum \<Rightarrow> jsnum" where
  "js_sub (Fin a) (Fin b) = Fin (a - b)"
| "js_sub NaN y = NaN"
| "js_sub x NaN = NaN"
| "js_sub PInf PInf = NaN"
| "js_sub NInf NInf = NaN"
| "js_sub PInf y = PInf"
| "js_sub NInf y = NInf"
| "js_sub x PInf = NInf"
| "js_sub x NInf = PInf"

text \<open>\<open>Math.round\<close>: the nearest integer, a tie going up.\<close>

definition round_half_up :: "rat \<Rightarrow> int" where
  "round_half_up x = \<lfloor>x + 1 / 2\<rfloor>"

fun js_round :: "jsnum \<Rightarrow> jsnum" where
  "js_round (Fin a) = Fin (of_int (round_half_up a))"
| "js_round x = x"

text \<open>\<open>Math.min\<close> and \<open>Math.max\<close>: \<open>NaN\<close> if an argument is \<open>NaN\<close>;
  with no argument, \<open>Infinity\<close> and \<open>-Infinity\<close>.\<close>

fun js_min2 :: "jsnum \<Rightarrow> jsnum \<Rightarrow> jsnum" where
  "js_min2 NaN y = NaN"
| "js_min2 x NaN = NaN"
| "js_min2 NInf y = NInf"
| "js_min2 x NInf = NInf"
| "js_min2 PInf y = y"
| "js_min2 x PInf = x"
| "js_min2 (Fin a) (Fin b) = Fin (min a b)"

fun js_max2 :: "jsnum \<Rightarrow> jsnum \<Rightarrow> jsnum" where
  "js_max2 NaN y = NaN"
| "js_max2 x NaN = NaN"
| "js_max2 PInf y = PInf"
| "js_max2 x PInf = PInf"
| "js_max2 NInf y = y"
| "js_max2 x NInf = x"
| "js_max2 (Fin a) (Fin b) = Fin (max a b)"

definition Math_min :: "jsnum list \<Rightarrow> jsnum" where
  "Math_min xs = foldl js_min2 PInf xs"

definition Math_max :: "jsnum list \<Rightarrow> jsnum" where
  "Math_max xs = foldl js_max2 NInf xs"

section \<open>Rectangles and the coordinate transform (canvas.js)\<close>

record rect =
  left :: jsnum
  rtop :: jsnum
  width :: jsnum
  height :: jsnum

record imageInfo =
  originalWidth :: jsnum
  originalHeight :: jsnum
  displayWidth :: jsnum
  displayHeight :: jsnum
  scale :: jsnum

text \<open>
  \<open>this.imageInfo\<close> is undefined until an image has been set up: \<open>None\<close>.
  \<open>CalibrationApp.displayToOriginalCoords\<close> of batch-processor.js has the same body as
  the function of canvas.js.
\<close>

definition displayToOriginalCoords :: "imageInfo option \<Rightarrow> rect \<Rightarrow> rect" where
  "displayToOriginalCoords info displayRegion =
     (case info of
        None \<Rightarrow> displayRegion
      | Some i \<Rightarrow>
          \<lparr> left = js_round (js_div (left displayRegion) (scale i)),
            rtop = js_round (js_div (rtop displayRegion) (scale i)),
            width = js_round (js_div (width displayRegion) (scale i)),
            height = js_round (js_div (height displayRegion) (scale i)) \<rparr>)"

definition originalToDisplayCoords :: "imageInfo option \<Rightarrow> rect \<Rightarrow> rect" where
  "originalToDisplayCoords info originalRegion =
     (case info of
        None \<Rightarrow> originalRegion
      | Some i \<Rightarrow>
          \<lparr> left = js_round (js_mul (left originalRegion) (scale i)),
            rtop = js_round (js_mul (rtop originalRegion) (scale i)),
            width = js_round (js_mul (width originalRegion) (scale i)),
            height = js_round (js_mul (height originalRegion) (scale i)) \<rparr>)"

text \<open>Two numbers are within \<open>d\<close> of each other: both finite, and the distance at most \<open>d\<close>.\<close>

fun close_to :: "rat \<Rightarrow> jsnum \<Rightarrow> jsnum \<Rightarrow> bool" where
  "close_to d (Fin a) (Fin b) = (\<bar>a - b\<bar> \<le> d)"
| "close_to d x y = False"

definition rect_close :: "rat \<Rightarrow> rect \<Rightarrow> rect \<Rightarrow> bool" where
  "rect_close d r r' =
     (close_to d (left r) (left r') \<and> close_to d (rtop r) (rtop r') \<and>
      close_to d (width r) (width r') \<and> close_to d (height r) (height r'))"


section \<open>Region normalizer (APIManager.convertBboxToLocation)\<close>

text \<open>
  The argument of \<open>convertBboxToLocation\<close> is a value of the parsed OCR response:
  falsy (undefined, null), a value that is not an array, or an array. The elements of an
  array are modelled as arrays of numbers (the corner points); destructuring a point that
  has fewer than two numbers binds \<open>undefined\<close>, which \<open>Math.min\<close> turns into
  \<open>NaN\<close>.
\<close>

datatype bbox_value = Falsy | NonArray | Arr "jsnum list list"




section \<open>Annotation store (batch-processor.js, CalibrationApp; main controller, OCRAnnotationTool)\<close>

text \<open>The \<open>location\<close> of an OCR item: a rectangle object or an array of points \<open>{x, y}\<close>.\<close>

datatype location_value = LocRect rect | LocPoints "(jsnum \<times> jsnum) list"

text \<open>
  An annotation. \<open>ann_text\<close> is \<open>None\<close> where the source stores \<open>undefined\<close>
  (the main controller copies \<open>item.words\<close> unchecked); \<open>region\<close> is \<open>None\<close> where
  the source leaves the location undefined, and otherwise a rectangle or, in the main
  controller, whatever location the OCR item carried.
\<close>

record annotation =
  ann_id :: nat
  ann_text :: "string option"
  region :: "location_value option"
  isManual :: bool

record ocr_item =
  item_text :: "string option"
  item_words :: "string option"
  location :: "location_value option"
  text_region :: "bbox_value option"
  confidence :: "jsnum option"

record ocr_result =
  words_result :: "ocr_item list option"

text \<open>Truthiness of a string that may be undefined, and the chain
  \<open>item.text || item.words || ''\<close>.\<close>

definition truthy_str :: "string option \<Rightarrow> bool" where
  "truthy_str s = (case s of None \<Rightarrow> False | Some t \<Rightarrow> t \<noteq> [])"

definition text_or_words :: "ocr_item \<Rightarrow> string" where
  "text_or_words item =
     (if truthy_str (item_text item) then the (item_text item)
      else if truthy_str (item_words item) then the (item_words item)
      else [])"

definition seed_location :: "ocr_item \<Rightarrow> nat \<Rightarrow> location_value option" where
  "seed_location item index =
     (case location item of
        None \<Rightarrow>
          if truthy_str (item_words item)
          then Some (LocRect \<lparr> left = Fin (of_nat (50 + index * 120)),
                               rtop = Fin (of_nat (50 + (index div 3) * 40)),
                               width = Fin 100, height = Fin 30 \<rparr>)
          else None
      | Some (LocPoints ps) \<Rightarrow>
          let xs = map fst ps; ys = map snd ps
          in Some (LocRect \<lparr> left = Math_min xs, rtop = Math_min ys,
                             width = js_sub (Math_max xs) (Math_min xs),
                             height = js_sub (Math_max ys) (Math_min ys) \<rparr>)
      | Some (LocRect r) \<Rightarrow> Some (LocRect r))"

text \<open>
  \<open>words_result.map((item, index) => ...)\<close>. The callback reads \<open>Date.now()\<close> for each
  item; the model takes one reading \<open>now\<close> for the whole array, the clock not advancing
  while the array is mapped.
\<close>

definition seed_annotations :: "ocr_item list \<Rightarrow> nat \<Rightarrow> annotation list" where
  "seed_annotations items now =
     map (\<lambda>(index, item).
            \<lparr> ann_id = now + index, ann_text = Some (text_or_words item),
              region = seed_location item index, isManual = False \<rparr>)
         (enumerate 0 items)"

type_synonym annotation_map = "(string, annotation list) fmap"

definition get_annotations :: "annotation_map \<Rightarrow> string \<Rightarrow> annotation list" where
  "get_annotations anns imageName =
     (case fmlookup anns imageName of None \<Rightarrow> [] | Some l \<Rightarrow> l)"

text \<open>
  \<open>CalibrationApp.loadImageAnnotations\<close>: the effect on \<open>this.state.annotations\<close>.
  \<open>ocrResults\<close> is \<open>this.state.folderData.ocrResults\<close> at the time of the call.
\<close>

definition loadImageAnnotations ::
  "annotation_map \<Rightarrow> (string, ocr_result) fmap \<Rightarrow> string \<Rightarrow> nat \<Rightarrow> annotation_map" where
  "loadImageAnnotations anns ocrResults imageName now =
     (if get_annotations anns imageName = [] then
        (case fmlookup ocrResults imageName of
           None \<Rightarrow> anns
         | Some ocrResult \<Rightarrow>
             (case words_result ocrResult of
                None \<Rightarrow> anns
              | Some ws \<Rightarrow>
                  if 0 < length ws
                  then fmupd imageName (seed_annotations ws now) anns
                  else anns))
      else anns)"




text \<open>
  The editing operations of \<open>CalibrationApp\<close>. \<open>currentFileName\<close> is
  \<open>this.state.imageFiles[this.state.currentImageIndex].name\<close> and \<open>now\<close> the value of
  \<open>Date.now()\<close>; mouse coordinates are finite numbers.
\<close>

definition addNewTextItem :: "annotation_map \<Rightarrow> string \<Rightarrow> nat \<Rightarrow> annotation_map" where
  "addNewTextItem anns currentFileName now =
     fmupd currentFileName
       (get_annotations anns currentFileName @
        [\<lparr> ann_id = now, ann_text = Some [],
           region = Some (LocRect \<lparr> left = Fin 50, rtop = Fin 50,
                                    width = Fin 100, height = Fin 30 \<rparr>),
           isManual = True \<rparr>])
       anns"

definition calculateRegion :: "rat \<Rightarrow> rat \<Rightarrow> rat \<Rightarrow> rat \<Rightarrow> rect" where
  "calculateRegion startX startY endX endY =
     \<lparr> left = Fin (min startX endX), rtop = Fin (min startY endY),
       width = Fin \<bar>endX - startX\<bar>, height = Fin \<bar>endY - startY\<bar> \<rparr>"

record drawingState =
  isDrawing :: bool
  startX :: rat
  startY :: rat

definition handleMouseUp ::
  "annotation_map \<Rightarrow> imageInfo option \<Rightarrow> drawingState \<Rightarrow> string \<Rightarrow> rat \<Rightarrow> rat \<Rightarrow> nat
     \<Rightarrow> annotation_map" where
  "handleMouseUp anns info ds currentFileName x y now =
     (if isDrawing ds then
        (if \<bar>x - startX ds\<bar> < 10 then anns
         else if \<bar>y - startY ds\<bar> < 10 then anns
         else
           fmupd currentFileName
             (get_annotations anns currentFileName @
              [\<lparr> ann_id = now, ann_text = Some [],
                 region = Some (LocRect (displayToOriginalCoords info
                                   (calculateRegion (startX ds) (startY ds) x y))),
                 isManual = True \<rparr>])
             anns)
      else anns)"

definition deleteAnnotation :: "annotation_map \<Rightarrow> string \<Rightarrow> nat \<Rightarrow> annotation_map" where
  "deleteAnnotation anns currentFileName annotationId =
     fmupd currentFileName
       (filter (\<lambda>ann. ann_id ann \<noteq> annotationId) (get_annotations anns currentFileName))
       anns"


section \<open>Chunked persistence (progress-manager.js, OptimizedStorageManager)\<close>

record image_file =
  img_name :: string
  img_type :: string
  img_size :: nat
  img_lastModified :: nat
  dataURL :: string
  originalIndex :: nat

record chunk_metadata =
  meta_type :: string
  meta_size :: nat
  meta_lastModified :: nat

text \<open>
  An image descriptor (\<open>originalIndex\<close> is set on the images that \<open>getImageFiles\<close>
  returns) and a chunk record. The record's key \<open>id\<close> and its \<open>createdAt\<close> stamp,
  which reassembly does not read, are left out.
\<close>

record chunk_record =
  folderId :: nat
  imageName :: string
  imageIndex :: nat
  chunkIndex :: nat
  totalChunks :: nat
  chunk_data :: string
  chunk_meta :: chunk_metadata

text \<open>\<open>Math.ceil(dataURL.length / chunkSize)\<close> for a positive chunk size.\<close>

definition ceil_div :: "nat \<Rightarrow> nat \<Rightarrow> nat" where
  "ceil_div n c = (n + c - 1) div c"

text \<open>\<open>dataURL.slice(start, stop)\<close> for \<open>start \<le> stop\<close>.\<close>

definition slice :: "string \<Rightarrow> nat \<Rightarrow> nat \<Rightarrow> string" where
  "slice s start stop = take (stop - start) (drop start s)"

text \<open>
  The write path. \<open>processBatchImages\<close> opens a readwrite transaction on the chunk
  store and hands its object store to \<open>saveImageInChunks\<close> for every image whose
  \<open>dataURL\<close> is truthy. \<open>saveImageInChunks\<close> first awaits \<open>deleteImageChunks\<close>, which
  opens a readwrite transaction of its own on the same object store and removes the
  records of the image. IndexedDB runs readwrite transactions on the same store one after
  the other, and a transaction is active only in the task that created it and in the
  callbacks of its own requests: when the await resumes, the caller's transaction, on
  which no request was ever pending, has finished. A request on an object store whose
  transaction is not active raises \<open>TransactionInactiveError\<close>.
\<close>

datatype txn_state = Active | Finished

datatype idb_error = TransactionInactiveError

text \<open>The result of an asynchronous function on the store: fulfilled, or rejected with an
  error; either way with the store as the function leaves it.\<close>

datatype 'a outcome = Done 'a | Raised idb_error 'a

definition store_add ::
  "txn_state \<Rightarrow> chunk_record list \<Rightarrow> chunk_record \<Rightarrow> idb_error + chunk_record list" where
  "store_add txn store r =
     (case txn of
        Active \<Rightarrow> Inr (store @ [r])
      | Finished \<Rightarrow> Inl TransactionInactiveError)"

definition deleteImageChunks :: "chunk_record list \<Rightarrow> nat \<Rightarrow> string \<Rightarrow> chunk_record list" where
  "deleteImageChunks store fid nm =
     filter (\<lambda>chunk. \<not> (folderId chunk = fid \<and> imageName chunk = nm)) store"

text \<open>The chunk records that the loop of \<open>saveImageInChunks\<close> builds, one per chunk index
  below \<open>totalChunks\<close>, for a positive chunk size.\<close>

definition image_chunks :: "nat \<Rightarrow> nat \<Rightarrow> image_file \<Rightarrow> nat \<Rightarrow> chunk_record list" where
  "image_chunks chunkSize fid img imgIndex =
     (let total = ceil_div (length (dataURL img)) chunkSize
      in map (\<lambda>ci.
                \<lparr> folderId = fid, imageName = img_name img, imageIndex = imgIndex,
                  chunkIndex = ci, totalChunks = total,
                  chunk_data = slice (dataURL img) (ci * chunkSize)
                                 (min (ci * chunkSize + chunkSize) (length (dataURL img))),
                  chunk_meta = \<lparr> meta_type = img_type img, meta_size = img_size img,
                                 meta_lastModified = img_lastModified img \<rparr> \<rparr>)
             [0..<total])"

text \<open>The loop: each record goes to \<open>store.add\<close>; the first request that raises ends it.\<close>

fun add_chunks ::
  "txn_state \<Rightarrow> chunk_record list \<Rightarrow> chunk_record list \<Rightarrow> chunk_record list outcome" where
  "add_chunks txn store [] = Done store"
| "add_chunks txn store (r # rs) =
     (case store_add txn store r of
        Inl e \<Rightarrow> Raised e store
      | Inr store' \<Rightarrow> add_chunks txn store' rs)"

text \<open>
  \<open>saveImageInChunks\<close>. The deletion has been committed by the time the loop starts, and
  the loop runs on the caller's finished transaction. With chunk size 0, \<open>totalChunks\<close>
  is \<open>NaN\<close> for an empty payload (the loop body never runs) and \<open>Infinity\<close> otherwise
  (the first \<open>store.add\<close> raises).
\<close>

definition saveImageInChunks ::
  "nat \<Rightarrow> chunk_record list \<Rightarrow> nat \<Rightarrow> image_file \<Rightarrow> nat \<Rightarrow> chunk_record list outcome" where
  "saveImageInChunks chunkSize store fid img imgIndex =
     (let store1 = deleteImageChunks store fid (img_name img);
          txn = Finished
      in if chunkSize = 0 then
           (if dataURL img = [] then Done store1
            else Raised TransactionInactiveError store1)
         else add_chunks txn store1 (image_chunks chunkSize fid img imgIndex))"

text \<open>
  \<open>reconstructImageFromChunks\<close>: the chunks are sorted by \<open>chunkIndex\<close> (a stable sort);
  reading \<open>chunks[0]\<close> of an empty array raises a TypeError, which the function catches,
  returning null.
\<close>

definition reconstructImageFromChunks :: "string \<Rightarrow> chunk_record list \<Rightarrow> image_file option" where
  "reconstructImageFromChunks nm chunks =
     (case sort_key chunkIndex chunks of
        [] \<Rightarrow> None
      | c0 # rest \<Rightarrow>
          if length (c0 # rest) \<noteq> totalChunks c0 then None
          else Some \<lparr> img_name = nm, img_type = meta_type (chunk_meta c0),
                      img_size = meta_size (chunk_meta c0),
                      img_lastModified = meta_lastModified (chunk_meta c0),
                      dataURL = concat (map chunk_data (c0 # rest)),
                      originalIndex = imageIndex c0 \<rparr>)"

text \<open>
  \<open>getImageFiles\<close>: the cursor yields the records of the folder; \<open>chunks\<close> is a JavaScript
  \<open>Map\<close>, which keeps its keys in insertion order.
\<close>

fun chunks_push ::
  "(string \<times> chunk_record list) list \<Rightarrow> string \<Rightarrow> chunk_record
     \<Rightarrow> (string \<times> chunk_record list) list" where
  "chunks_push [] nm chunk = [(nm, [chunk])]"
| "chunks_push ((k, g) # m) nm chunk =
     (if k = nm then (k, g @ [chunk]) # m else (k, g) # chunks_push m nm chunk)"

definition group_chunks :: "chunk_record list \<Rightarrow> (string \<times> chunk_record list) list" where
  "group_chunks cs = foldl (\<lambda>m chunk. chunks_push m (imageName chunk) chunk) [] cs"

record image_range =
  range_start :: nat
  range_count :: nat

definition in_range :: "image_range option \<Rightarrow> chunk_record list \<Rightarrow> bool" where
  "in_range rng imageChunks =
     (case rng of
        None \<Rightarrow> True
      | Some r \<Rightarrow>
          (case imageChunks of
             [] \<Rightarrow> True
           | c0 # rest \<Rightarrow>
               if imageIndex c0 < range_start r then False
               else if imageIndex c0 \<ge> range_start r + range_count r then False
               else True))"

definition getImageFiles :: "chunk_record list \<Rightarrow> nat \<Rightarrow> image_range option \<Rightarrow> image_file list" where
  "getImageFiles store fid rng =
     sort_key originalIndex
       (List.map_filter
          (\<lambda>(nm, imageChunks).
             if in_range rng imageChunks then reconstructImageFromChunks nm imageChunks
             else None)
          (group_chunks (filter (\<lambda>chunk. folderId chunk = fid) store)))"


section \<open>Folder store (storage.js, StorageManager)\<close>

record folder_metadata =
  totalImages :: nat
  processedImages :: nat
  calibratedImages :: nat

record image_annotation =
  ia_imageName :: string
  textRegions :: "annotation list option"

text \<open>
  A folder object, as passed to \<open>saveFolder\<close> and as kept in the object store. Every
  property may be absent (\<open>None\<close>). An object is a finite map from its keys, so that
  \<open>Object.keys(o).length\<close> is the cardinality of its domain.
\<close>

record folder =
  folder_id :: "nat option"
  name :: "string option"
  folderName :: "string option"
  status :: "string option"
  imageFiles :: "image_file list option"
  ocrResults :: "(string, ocr_result) fmap option"
  annotations :: "(string, image_annotation) fmap option"
  createdAt :: "string option"
  updatedAt :: "string option"
  metadata :: "folder_metadata option"

datatype storage_error = DbNotInitialized | FolderNotFound | TypeError

text \<open>
  The object store \<open>folders\<close> of IndexedDB, with key path \<open>id\<close> and a key generator:
  \<open>add\<close> of a record without key takes the generator's value, \<open>put\<close> of a record with a
  key stores it under that key and moves the generator past it. Failures of the storage
  backend itself (\<open>request.onerror\<close>) are not modelled.
\<close>

record folder_store =
  records :: "(nat, folder) fmap"
  keygen :: nat

definition empty_store :: folder_store where
  "empty_store = \<lparr> records = fmempty, keygen = 1 \<rparr>"

definition or_default :: "string option \<Rightarrow> string \<Rightarrow> string" where
  "or_default s d = (if truthy_str s then the s else d)"

definition or_empty_list :: "'a list option \<Rightarrow> 'a list" where
  "or_empty_list l = (case l of None \<Rightarrow> [] | Some xs \<Rightarrow> xs)"

definition or_empty_obj :: "('k, 'v) fmap option \<Rightarrow> ('k, 'v) fmap" where
  "or_empty_obj m = (case m of None \<Rightarrow> fmempty | Some obj \<Rightarrow> obj)"

definition object_keys_length :: "('k, 'v) fmap \<Rightarrow> nat" where
  "object_keys_length m = fcard (fmdom m)"

definition folderRecord :: "folder \<Rightarrow> string \<Rightarrow> folder" where
  "folderRecord folderData now =
     \<lparr> folder_id = None,
       name = None,
       folderName = name folderData,
       status = Some (or_default (status folderData) ''unprocessed''),
       imageFiles = Some (or_empty_list (imageFiles folderData)),
       ocrResults = Some (or_empty_obj (ocrResults folderData)),
       annotations = Some (or_empty_obj (annotations folderData)),
       createdAt = Some (or_default (createdAt folderData) now),
       updatedAt = Some now,
       metadata = Some
         \<lparr> totalImages = (case imageFiles folderData of None \<Rightarrow> 0 | Some l \<Rightarrow> length l),
           processedImages = object_keys_length (or_empty_obj (ocrResults folderData)),
           calibratedImages = object_keys_length (or_empty_obj (annotations folderData)) \<rparr> \<rparr>"

definition store_put :: "folder_store \<Rightarrow> nat \<Rightarrow> folder \<Rightarrow> folder_store" where
  "store_put st k r =
     \<lparr> records = fmupd k r (records st), keygen = max (keygen st) (Suc k) \<rparr>"

definition saveFolder ::
  "folder_store option \<Rightarrow> folder \<Rightarrow> string \<Rightarrow> storage_error + (folder_store \<times> folder)" where
  "saveFolder db folderData now =
     (case db of
        None \<Rightarrow> Inl DbNotInitialized
      | Some st \<Rightarrow>
          let key = (case folder_id folderData of
                       None \<Rightarrow> keygen st
                     | Some k \<Rightarrow> if k = 0 then keygen st else k);
              stored = (folderRecord folderData now) \<lparr> folder_id := Some key \<rparr>
          in Inr (store_put st key stored, stored))"

definition getFolderById :: "folder_store option \<Rightarrow> nat \<Rightarrow> storage_error + folder option" where
  "getFolderById db k =
     (case db of None \<Rightarrow> Inl DbNotInitialized | Some st \<Rightarrow> Inr (fmlookup (records st) k))"

text \<open>
  \<open>updateFolderOCRResults\<close>: \<open>now\<close> is the clock when the function stamps the folder,
  \<open>saveNow\<close> the clock inside \<open>saveFolder\<close>. Reading \<open>folder.metadata.processedImages\<close>
  of a record without metadata raises a TypeError.
\<close>

definition updateFolderOCRResults ::
  "folder_store option \<Rightarrow> nat \<Rightarrow> (string, ocr_result) fmap \<Rightarrow> string \<Rightarrow> string
     \<Rightarrow> storage_error + (folder_store \<times> folder)" where
  "updateFolderOCRResults db k newResults now saveNow =
     (case getFolderById db k of
        Inl e \<Rightarrow> Inl e
      | Inr None \<Rightarrow> Inl FolderNotFound
      | Inr (Some f) \<Rightarrow>
          let merged = or_empty_obj (ocrResults f) ++\<^sub>f newResults
          in (case metadata f of
                None \<Rightarrow> Inl TypeError
              | Some md \<Rightarrow>
                  let md' = md \<lparr> processedImages := object_keys_length merged \<rparr>;
                      f' = f \<lparr> ocrResults := Some merged, updatedAt := Some now,
                               metadata := Some md' \<rparr>;
                      f'' = (if processedImages md' = totalImages md'
                             then f' \<lparr> status := Some ''processed'' \<rparr> else f')
                  in saveFolder db f'' saveNow))"

section \<open>Export (dashboard.js, DashboardManager.processExportData)\<close>

datatype position_value = PosLocation location_value | PosQuad bbox_value

record original_region =
  o_text :: string
  o_position :: "position_value option"
  o_confidence :: jsnum

record modifications =
  textChanged :: bool
  annotationsAdded :: int
  annotationsDeleted :: int
  totalEdits :: int

text \<open>
  The export entry of one image. Of the source's \<open>imageData\<close> the model keeps
  \<open>originalOCR.textRegions\<close> (\<open>None\<close> for a null \<open>originalOCR\<close>) and \<open>modifications\<close>;
  \<open>calibratedText\<close>, which \<open>modifications\<close> does not read, is left out.
\<close>

record image_data =
  originalOCR :: "original_region list option"
  image_modifications :: modifications

definition truthy_num :: "jsnum option \<Rightarrow> bool" where
  "truthy_num c = (case c of None \<Rightarrow> False | Some NaN \<Rightarrow> False
                   | Some (Fin a) \<Rightarrow> a \<noteq> 0 | Some x \<Rightarrow> True)"

definition original_region_of :: "ocr_item \<Rightarrow> original_region" where
  "original_region_of item =
     \<lparr> o_text = text_or_words item,
       o_position = (case location item of
                       Some l \<Rightarrow> Some (PosLocation l)
                     | None \<Rightarrow> map_option PosQuad (text_region item)),
       o_confidence = (if truthy_num (confidence item) then the (confidence item)
                       else Fin (8 / 10)) \<rparr>"

text \<open>
  \<open>JSON.stringify\<close> of an array of strings, an undefined element printed as
  \<open>null\<close>, determines the array, and \<open>JSON.stringify(undefined)\<close> is \<open>undefined\<close>,
  which no string equals. So the source's comparison of the two serialisations is the
  comparison of the two arrays, \<open>None\<close> being the undefined one.
\<close>

definition stringify_differs ::
  "string option list option \<Rightarrow> string option list option \<Rightarrow> bool" where
  "stringify_differs a b = (a \<noteq> b)"

definition export_image :: "folder \<Rightarrow> string \<Rightarrow> image_data" where
  "export_image f imgName =
     (let orig =
            (case fmlookup (or_empty_obj (ocrResults f)) imgName of
               None \<Rightarrow> None
             | Some ocrResult \<Rightarrow>
                 Some (case words_result ocrResult of
                         None \<Rightarrow> []
                       | Some ws \<Rightarrow> map original_region_of ws))
      in case fmlookup (or_empty_obj (annotations f)) imgName of
           None \<Rightarrow>
             \<lparr> originalOCR = orig,
               image_modifications =
                 \<lparr> textChanged = False, annotationsAdded = 0,
                   annotationsDeleted = 0, totalEdits = 0 \<rparr> \<rparr>
         | Some annotation \<Rightarrow>
             let regions = or_empty_list (textRegions annotation);
                 originalCount = (case orig of None \<Rightarrow> 0 | Some rs \<Rightarrow> int (length rs));
                 calibratedCount = int (length regions);
                 manualCount = int (length (filter isManual regions))
             in \<lparr> originalOCR = orig,
                  image_modifications =
                    \<lparr> textChanged =
                        (if originalCount \<noteq> calibratedCount then True
                         else stringify_differs
                                (map_option (map (\<lambda>r. Some (o_text r))) orig)
                                (Some (map ann_text (filter (\<lambda>r. \<not> isManual r) regions)))),
                      annotationsAdded = manualCount,
                      annotationsDeleted =
                        max 0 (originalCount - (calibratedCount - manualCount)),
                      totalEdits = \<bar>originalCount - calibratedCount\<bar> + manualCount \<rparr> \<rparr>)"

text \<open>\<open>result.images\<close>: one entry per element of \<open>folder.imageFiles\<close>, a later image of
  the same name overwriting the earlier entry.\<close>

definition processExportData :: "folder \<Rightarrow> (string, image_data) fmap" where
  "processExportData f =
     foldl (\<lambda>images imageFile.
              fmupd (img_name imageFile) (export_image f (img_name imageFile)) images)
           fmempty (or_empty_list (imageFiles f))"

section \<open>Notions used in the statements\<close>

text \<open>
  A record as \<open>saveFolder\<close> leaves it in the store under key \<open>k\<close>: the key is positive and
  is the record's \<open>id\<close>, the status is a non-empty string, the three collections are
  present and the counters are their sizes. \<open>wf_store\<close> says so of every record.
\<close>

definition stored_ok :: "nat \<Rightarrow> folder \<Rightarrow> bool" where
  "stored_ok k r =
     (0 < k \<and> folder_id r = Some k \<and> truthy_str (status r) \<and>
      imageFiles r = Some (or_empty_list (imageFiles r)) \<and>
      ocrResults r = Some (or_empty_obj (ocrResults r)) \<and>
      annotations r = Some (or_empty_obj (annotations r)) \<and>
      metadata r = Some
        \<lparr> totalImages = length (or_empty_list (imageFiles r)),
          processedImages = object_keys_length (or_empty_obj (ocrResults r)),
          calibratedImages = object_keys_length (or_empty_obj (annotations r)) \<rparr>)"

definition wf_store :: "folder_store \<Rightarrow> bool" where
  "wf_store st = (0 < keygen st \<and> fmpred stored_ok (records st))"

text \<open>
  The original OCR regions of an image (none if the folder has no OCR result for it) and
  its calibrated regions, as \<open>processExportData\<close> reads them from the folder.
\<close>

definition original_ocr_items :: "folder \<Rightarrow> string \<Rightarrow> ocr_item list" where
  "original_ocr_items f imgName =
     (case fmlookup (or_empty_obj (ocrResults f)) imgName of
        None \<Rightarrow> []
      | Some ocrResult \<Rightarrow> or_empty_list (words_result ocrResult))"

definition calibrated_regions :: "folder \<Rightarrow> string \<Rightarrow> annotation list" where
  "calibrated_regions f imgName =
     (case fmlookup (or_empty_obj (annotations f)) imgName of
        None \<Rightarrow> []
      | Some a \<Rightarrow> or_empty_list (textRegions a))"

text \<open>What JavaScript's division of a finite number by zero gives.\<close>

definition div_by_zero :: "rat \<Rightarrow> jsnum" where
  "div_by_zero a = (if a = 0 then NaN else if 0 < a then PInf else NInf)"

section \<open>Concrete inputs\<close>

text \<open>An image shown at a quarter of its size, and one whose container leaves no room
  (\<open>containerRect.width - 40 = 0\<close>, so that \<open>scale\<close> is 0).\<close>

definition info_quarter :: imageInfo where
  "info_quarter = \<lparr> originalWidth = Fin 400, originalHeight = Fin 400,
                     displayWidth = Fin 100, displayHeight = Fin 100, scale = Fin (1 / 4) \<rparr>"

definition info_zero :: imageInfo where
  "info_zero = \<lparr> originalWidth = Fin 400, originalHeight = Fin 400,
                  displayWidth = Fin 0, displayHeight = Fin 0, scale = Fin 0 \<rparr>"

definition rect_2 :: rect where
  "rect_2 = \<lparr> left = Fin 2, rtop = Fin 2, width = Fin 2, height = Fin 2 \<rparr>"

definition rect_mixed :: rect where
  "rect_mixed = \<lparr> left = Fin 10, rtop = Fin 0, width = Fin 30, height = Fin (- 4) \<rparr>"

definition rect_10_40 :: rect where
  "rect_10_40 = \<lparr> left = Fin 10, rtop = Fin 20, width = Fin 30, height = Fin 40 \<rparr>"

text \<open>The group of an image name in the \<open>Map\<close> built by \<open>getImageFiles\<close>
  (empty when the name is not a key).\<close>

definition group_of :: "(string \<times> chunk_record list) list \<Rightarrow> string \<Rightarrow> chunk_record list" where
  "group_of m nm = (case map_of m nm of None \<Rightarrow> [] | Some g \<Rightarrow> g)"

text \<open>
  A ten-character payload, stored in chunks of four characters over an older chunk of the
  same image; and a folder with three images of which \<open>b.png\<close> lacks its second chunk,
  the chunks of \<open>a.png\<close> coming back from the store in reverse order.
\<close>

definition img_a :: image_file where
  "img_a = \<lparr> img_name = ''a.png'', img_type = ''image/png'', img_size = 7,
             img_lastModified = 1700, dataURL = ''data:abcde'', originalIndex = 0 \<rparr>"

definition png_meta :: chunk_metadata where
  "png_meta = \<lparr> meta_type = ''image/png'', meta_size = 7, meta_lastModified = 1700 \<rparr>"

definition old_store :: "chunk_record list" where
  "old_store =
     [\<lparr> folderId = 1, imageName = ''a.png'', imageIndex = 0, chunkIndex = 0, totalChunks = 1,
        chunk_data = ''old'', chunk_meta = png_meta \<rparr>]"

definition store3 :: "chunk_record list" where
  "store3 =
     [\<lparr> folderId = 1, imageName = ''a.png'', imageIndex = 0, chunkIndex = 1, totalChunks = 2,
        chunk_data = ''lo'', chunk_meta = png_meta \<rparr>,
      \<lparr> folderId = 1, imageName = ''b.png'', imageIndex = 1, chunkIndex = 0, totalChunks = 2,
        chunk_data = ''wor'', chunk_meta = png_meta \<rparr>,
      \<lparr> folderId = 1, imageName = ''a.png'', imageIndex = 0, chunkIndex = 0, totalChunks = 2,
        chunk_data = ''hel'', chunk_meta = png_meta \<rparr>,
      \<lparr> folderId = 1, imageName = ''c.png'', imageIndex = 2, chunkIndex = 0, totalChunks = 1,
        chunk_data = ''xyz'', chunk_meta = png_meta \<rparr>,
      \<lparr> folderId = 2, imageName = ''b.png'', imageIndex = 0, chunkIndex = 1, totalChunks = 2,
        chunk_data = ''ld'', chunk_meta = png_meta \<rparr>]"

text \<open>
  OCR results for \<open>a.jpg\<close>: one recognised region, none, and three; the annotation the
  region seeds; and the annotation store after the first view of the image at time 1000.
\<close>

definition item_hi :: ocr_item where
  "item_hi = \<lparr> item_text = Some ''hi'', item_words = Some ''hi'',
               location = Some (LocRect \<lparr> left = Fin 10, rtop = Fin 10,
                                            width = Fin 40, height = Fin 20 \<rparr>),
               text_region = Some (Arr [[Fin 10, Fin 10], [Fin 50, Fin 10],
                                        [Fin 50, Fin 30], [Fin 10, Fin 30]]),
               confidence = Some (Fin (9 / 10)) \<rparr>"

definition ocr_one :: "(string, ocr_result) fmap" where
  "ocr_one = fmupd ''a.jpg'' \<lparr> words_result = Some [item_hi] \<rparr> fmempty"


definition ocr_three :: "(string, ocr_result) fmap" where
  "ocr_three = fmupd ''a.jpg'' \<lparr> words_result = Some [item_hi, item_hi, item_hi] \<rparr> fmempty"

definition ann_hi :: "nat \<Rightarrow> annotation" where
  "ann_hi i = \<lparr> ann_id = i, ann_text = Some ''hi'',
               region = Some (LocRect \<lparr> left = Fin 10, rtop = Fin 10,
                                         width = Fin 40, height = Fin 20 \<rparr>),
               isManual = False \<rparr>"


text \<open>
  A new folder with two images and stale counters; the record and the store that saving it
  into the empty store gives; OCR results for both images; the folder after calibration
  of \<open>a.jpg\<close> (one OCR region kept, two deleted, one region added by hand); and a
  folder whose image has an empty calibrated list and no OCR result.
\<close>

definition jpg_a :: image_file where
  "jpg_a = \<lparr> img_name = ''a.jpg'', img_type = ''image/jpeg'', img_size = 7,
             img_lastModified = 1700, dataURL = ''data:abcde'', originalIndex = 0 \<rparr>"

definition jpg_b :: image_file where
  "jpg_b = \<lparr> img_name = ''b.jpg'', img_type = ''image/jpeg'', img_size = 9,
             img_lastModified = 1701, dataURL = ''data:fghij'', originalIndex = 1 \<rparr>"

definition folder_new :: folder where
  "folder_new = \<lparr> folder_id = None, name = Some ''scans'', folderName = None, status = None,
                  imageFiles = Some [jpg_a, jpg_b], ocrResults = None, annotations = None,
                  createdAt = None, updatedAt = None,
                  metadata = Some \<lparr> totalImages = 99, processedImages = 7,
                                      calibratedImages = 5 \<rparr> \<rparr>"

definition rec_one :: folder where
  "rec_one = \<lparr> folder_id = Some 1, name = None, folderName = Some ''scans'',
               status = Some ''unprocessed'',
               imageFiles = Some [jpg_a, jpg_b], ocrResults = Some fmempty,
               annotations = Some fmempty,
               createdAt = Some ''2024-01-01'', updatedAt = Some ''2024-01-01'',
               metadata = Some \<lparr> totalImages = 2, processedImages = 0,
                                   calibratedImages = 0 \<rparr> \<rparr>"

definition store_one :: folder_store where
  "store_one = \<lparr> records = fmupd 1 rec_one fmempty, keygen = 2 \<rparr>"

definition ocr_both :: "(string, ocr_result) fmap" where
  "ocr_both = fmupd ''b.jpg'' \<lparr> words_result = Some [] \<rparr> ocr_one"

definition ann_manual :: "nat \<Rightarrow> annotation" where
  "ann_manual i = \<lparr> ann_id = i, ann_text = Some ''new'',
                   region = Some (LocRect \<lparr> left = Fin 50, rtop = Fin 50,
                                             width = Fin 100, height = Fin 30 \<rparr>),
                   isManual = True \<rparr>"

definition folder_edited :: folder where
  "folder_edited = rec_one
     \<lparr> ocrResults := Some ocr_three,
       annotations := Some (fmupd ''a.jpg''
          \<lparr> ia_imageName = ''a.jpg'',
            textRegions = Some [ann_hi 1000, ann_manual 5000] \<rparr> fmempty) \<rparr>"

definition folder_no_ocr :: folder where
  "folder_no_ocr = rec_one
     \<lparr> annotations := Some (fmupd ''a.jpg''
          \<lparr> ia_imageName = ''a.jpg'', textRegions = Some [] \<rparr> fmempty) \<rparr>"


definition jpg_c :: image_file where
  "jpg_c = \<lparr> img_name = ''c.jpg'', img_type = ''image/jpeg'', img_size = 5,
             img_lastModified = 1702, dataURL = ''data:klmno'', originalIndex = 2 \<rparr>"

definition ocr_c :: "(string, ocr_result) fmap" where
  "ocr_c = fmupd ''c.jpg'' \<lparr> words_result = Some [item_hi, item_hi] \<rparr> fmempty"

definition folder_part :: folder where
  "folder_part = \<lparr> folder_id = None, name = Some ''scans'', folderName = None, status = None,
                   imageFiles = Some [jpg_a, jpg_b, jpg_c], ocrResults = Some ocr_both,
                   annotations = None, createdAt = None, updatedAt = None, metadata = None \<rparr>"

definition rec_part :: folder where
  "rec_part = \<lparr> folder_id = Some 1, name = None, folderName = Some ''scans'',
                status = Some ''unprocessed'',
                imageFiles = Some [jpg_a, jpg_b, jpg_c], ocrResults = Some ocr_both,
                annotations = Some fmempty,
                createdAt = Some ''2024-01-01'', updatedAt = Some ''2024-01-01'',
                metadata = Some \<lparr> totalImages = 3, processedImages = 2,
                                    calibratedImages = 0 \<rparr> \<rparr>"

definition store_part :: folder_store where
  "store_part = \<lparr> records = fmupd 1 rec_part fmempty, keygen = 2 \<rparr>"

section \<open>JavaScript numbers: properties\<close>

text \<open>The binary exponent brackets its argument, and rounding to binary64 is exact on the
  binary64 values and otherwise off by at most half a unit in the last place.\<close>

lemma pow2_diff: "(2::rat) powi (a - b) = 2 powi a / 2 powi b"
  by (simp add: power_int_diff)

lemma pow2_pos: "(0::rat) < 2 powi a"
  by (simp add: zero_less_power_int)

lemma binexp_bounds:
  assumes "x \<noteq> 0"
  shows "2 powi binexp x \<le> \<bar>x\<bar>" and "\<bar>x\<bar> < 2 powi (binexp x + 1)"
proof -
  obtain p q where pq: "quotient_of \<bar>x\<bar> = (p, q)" by (cases "quotient_of \<bar>x\<bar>")
  have q: "0 < q" using pq by (rule quotient_of_denom_pos)
  have x: "\<bar>x\<bar> = of_int p / of_int q" using pq by (rule quotient_of_div)
  have p: "0 < p"
  proof (rule ccontr)
    assume "\<not> 0 < p"
    hence "of_int p / (of_int q :: rat) \<le> 0" using q by (simp add: divide_le_0_iff)
    with x assms show False by simp
  qed
  let ?bp = "bitlen p" and ?bq = "bitlen q"
  from bitlen_bounds[OF p] have p1: "2 ^ nat (?bp - 1) \<le> p" and p2: "p < 2 ^ nat ?bp" by auto
  from bitlen_bounds[OF q] have q1: "2 ^ nat (?bq - 1) \<le> q" and q2: "q < 2 ^ nat ?bq" by auto
  have bp: "1 \<le> ?bp" using p by (auto simp: bitlen_alt_def)
  have bq: "1 \<le> ?bq" using q by (auto simp: bitlen_alt_def)
  have P1: "(2::rat) powi (?bp - 1) \<le> of_int p"
  proof -
    have "(2::rat) powi (?bp - 1) = 2 ^ nat (?bp - 1)" using bp by (simp add: power_int_def)
    also have "\<dots> = of_int (2 ^ nat (?bp - 1))" by simp
    also have "\<dots> \<le> of_int p" using p1 by (simp only: of_int_le_iff)
    finally show ?thesis .
  qed
  have P2: "of_int p < (2::rat) powi ?bp"
  proof -
    have "(of_int p :: rat) < of_int (2 ^ nat ?bp)" using p2 by (simp only: of_int_less_iff)
    also have "\<dots> = 2 ^ nat ?bp" by simp
    also have "\<dots> = 2 powi ?bp" using bp by (simp add: power_int_def)
    finally show ?thesis .
  qed
  have Q1: "(2::rat) powi (?bq - 1) \<le> of_int q"
  proof -
    have "(2::rat) powi (?bq - 1) = 2 ^ nat (?bq - 1)" using bq by (simp add: power_int_def)
    also have "\<dots> = of_int (2 ^ nat (?bq - 1))" by simp
    also have "\<dots> \<le> of_int q" using q1 by (simp only: of_int_le_iff)
    finally show ?thesis .
  qed
  have Q2: "of_int q < (2::rat) powi ?bq"
  proof -
    have "(of_int q :: rat) < of_int (2 ^ nat ?bq)" using q2 by (simp only: of_int_less_iff)
    also have "\<dots> = 2 ^ nat ?bq" by simp
    also have "\<dots> = 2 powi ?bq" using bq by (simp add: power_int_def)
    finally show ?thesis .
  qed
  have qr: "(0::rat) < of_int q" using q by simp
  have pr: "(0::rat) < of_int p" using p by simp
  have low: "(2::rat) powi (?bp - ?bq - 1) \<le> \<bar>x\<bar>"
  proof -
    have "?bp - ?bq - 1 = (?bp - 1) - ?bq" by simp
    hence "(2::rat) powi (?bp - ?bq - 1) = 2 powi (?bp - 1) / 2 powi ?bq"
      by (simp only: pow2_diff)
    also have "\<dots> \<le> of_int p / of_int q"
      using P1 Q2 qr pr by (intro frac_le) simp_all
    finally show ?thesis using x by simp
  qed
  have up: "\<bar>x\<bar> < (2::rat) powi (?bp - ?bq + 1)"
  proof -
    have "of_int p / of_int q < (2::rat) powi ?bp / 2 powi (?bq - 1)"
      using P2 Q1 qr pr pow2_pos[of "?bq - 1"] by (intro frac_less) auto
    also have "\<dots> = 2 powi (?bp - (?bq - 1))"
      by (simp only: pow2_diff)
    also have "?bp - (?bq - 1) = ?bp - ?bq + 1" by simp
    finally show ?thesis using x by simp
  qed
  show "2 powi binexp x \<le> \<bar>x\<bar>"
    using low by (auto simp: binexp_def pq Let_def)
  show "\<bar>x\<bar> < 2 powi (binexp x + 1)"
    using up by (auto simp: binexp_def pq Let_def not_le)
qed

lemma rne_err: "\<bar>of_int (rne y) - y\<bar> \<le> 1 / 2"
proof -
  define r where "r = y - of_int \<lfloor>y\<rfloor>"
  have r: "0 \<le> r" "r < 1" unfolding r_def by linarith+
  have y: "y = of_int \<lfloor>y\<rfloor> + r" unfolding r_def by simp
  have "\<bar>of_int (rne y) - (of_int \<lfloor>y\<rfloor> + r)\<bar> \<le> 1 / 2"
    using r unfolding rne_def Let_def r_def[symmetric] by (auto simp: abs_if)
  thus ?thesis using y by simp
qed

lemma rne_of_int: "rne (of_int z) = z"
  by (simp add: rne_def)

lemma round_half_up_err: "\<bar>of_int (round_half_up x) - x\<bar> \<le> 1 / 2"
  unfolding round_half_up_def by linarith

lemma binary64_close:
  assumes "\<bar>x\<bar> \<le> 2 ^ 64"
  shows "\<exists>y. binary64 x = Fin y \<and> \<bar>y - x\<bar> \<le> \<bar>x\<bar> / 2 ^ 53 + 1 / 2 ^ 1075"
proof (cases "x = 0")
  case True
  then show ?thesis by (simp add: binary64_def)
next
  case False
  define e where "e = max (binexp x) (- 1022)"
  define q :: rat where "q = 2 powi (e - 52)"
  define y where "y = of_int (rne (x / q)) * q"
  have q: "0 < q" unfolding q_def by (rule pow2_pos)
  have "y - x = (of_int (rne (x / q)) - x / q) * q"
    using q by (simp add: y_def left_diff_distrib)
  hence "\<bar>y - x\<bar> = \<bar>of_int (rne (x / q)) - x / q\<bar> * q"
    using q by (simp add: abs_mult)
  also have "\<dots> \<le> (1 / 2) * q"
    using rne_err[of "x / q"] q by (intro mult_right_mono) simp_all
  also have "(1 / 2) * q = 2 powi (e - 53)"
  proof -
    have "e - 53 = (e - 52) - 1" by simp
    hence "(2::rat) powi (e - 53) = 2 powi (e - 52) / 2 powi 1" by (simp only: pow2_diff)
    thus ?thesis unfolding q_def by simp
  qed
  finally have err: "\<bar>y - x\<bar> \<le> 2 powi (e - 53)" .
  have "(2::rat) powi (e - 53) \<le> \<bar>x\<bar> / 2 ^ 53 + 1 / 2 ^ 1075"
  proof (cases "- 1022 \<le> binexp x")
    case True
    hence "e = binexp x" by (simp add: e_def)
    hence "(2::rat) powi (e - 53) = 2 powi binexp x / 2 powi 53" by (simp only: pow2_diff)
    also have "\<dots> = 2 powi binexp x / 2 ^ 53" by simp
    also have "\<dots> \<le> \<bar>x\<bar> / 2 ^ 53"
      using binexp_bounds(1)[OF False] by (intro divide_right_mono) simp_all
    finally show ?thesis by simp
  next
    case False
    hence "e = - 1022" by (simp add: e_def)
    hence "(2::rat) powi (e - 53) = 2 powi (- 1075)" by simp
    also have "\<dots> = 1 / 2 ^ 1075" by (simp add: power_int_minus_divide)
    finally show ?thesis by simp
  qed
  with err have close: "\<bar>y - x\<bar> \<le> \<bar>x\<bar> / 2 ^ 53 + 1 / 2 ^ 1075" by linarith
  have "\<bar>x\<bar> / 2 ^ 53 \<le> 2 ^ 64 / 2 ^ 53" using assms by (intro divide_right_mono) simp_all
  hence "\<bar>y\<bar> \<le> 2 ^ 64 + 2 ^ 64 / 2 ^ 53 + 1 / 2 ^ 1075" using close assms by linarith
  also have "\<dots> < 2 ^ 1024" by simp
  finally have "\<not> 2 ^ 1024 \<le> \<bar>y\<bar>" by simp
  hence "binary64 x = Fin y"
    using \<open>x \<noteq> 0\<close> by (simp add: binary64_def Let_def e_def[symmetric] q_def[symmetric] y_def[symmetric])
  with close show ?thesis by blast
qed

lemma binary64_exact:
  assumes x: "x = of_int m * 2 powi k" and m: "\<bar>m\<bar> < 2 ^ 53" and k: "- 1074 \<le> k"
    and big: "\<bar>x\<bar> < 2 ^ 1024"
  shows "binary64 x = Fin x"
proof (cases "x = 0")
  case True
  then show ?thesis by (simp add: binary64_def)
next
  case False
  define e where "e = max (binexp x) (- 1022)"
  define q :: rat where "q = 2 powi (e - 52)"
  have q: "0 < q" unfolding q_def by (rule pow2_pos)
  have "\<bar>x\<bar> = of_int \<bar>m\<bar> * 2 powi k"
    using pow2_pos[of k] by (simp add: x abs_mult)
  also have "\<dots> < of_int (2 ^ 53) * 2 powi k"
    using m pow2_pos[of k] by (intro mult_strict_right_mono) (simp_all only: of_int_less_iff)
  also have "\<dots> = 2 powi (k + 53)"
    by (simp add: power_int_add)
  finally have "2 powi binexp x < (2::rat) powi (k + 53)"
    using binexp_bounds(1)[OF False] by simp
  hence "binexp x < k + 53"
  proof (rule contrapos_pp)
    assume "\<not> binexp x < k + 53"
    hence "(2::rat) powi (k + 53) \<le> 2 powi binexp x"
      by (intro power_int_increasing) simp_all
    thus "\<not> 2 powi binexp x < (2::rat) powi (k + 53)" by simp
  qed
  hence e: "e \<le> k + 52" using k by (simp add: e_def)
  define n where "n = nat (k + 52 - e)"
  have "k = (e - 52) + int n" using e by (simp add: n_def)
  moreover have "(2::rat) powi ((e - 52) + int n) = 2 powi (e - 52) * 2 powi (int n)"
    by (rule power_int_add) simp
  ultimately have "(2::rat) powi k = 2 powi (e - 52) * 2 powi (int n)" by simp
  hence pk: "(2::rat) powi k = q * 2 ^ n" by (simp add: q_def)
  have xq: "x / q = of_int (m * 2 ^ n)" using q by (simp add: x pk)
  have "of_int (rne (x / q)) * q = of_int (m * 2 ^ n) * q"
    by (simp only: xq rne_of_int)
  also have "\<dots> = x" using q by (simp add: x pk)
  finally have "of_int (rne (x / q)) * q = x" .
  thus ?thesis
    using False big
    by (simp add: binary64_def Let_def e_def[symmetric] q_def[symmetric] not_le[symmetric])
qed

lemma binary64_int: "\<bar>m\<bar> < 2 ^ 53 \<Longrightarrow> binary64 (of_int m) = Fin (of_int m)"
proof -
  assume m: "\<bar>m\<bar> < 2 ^ 53"
  have "\<bar>of_int m :: rat\<bar> < of_int (2 ^ 53)"
    using m by (simp only: of_int_abs[symmetric] of_int_less_iff)
  also have "\<dots> < 2 ^ 1024" by simp
  finally have "\<bar>of_int m :: rat\<bar> < 2 ^ 1024" .
  thus ?thesis using m by (intro binary64_exact[where m = m and k = 0]) simp_all
qed

lemma binary64_half: "binary64 (1 / 2) = Fin (1 / 2)"
  by (rule binary64_exact[where m = 1 and k = "- 1"]) (simp_all add: power_int_minus_divide)

lemma binary64_4: "binary64 4 = Fin 4"
  using binary64_int[of 4] by simp

lemma binary64_0: "binary64 0 = Fin 0"
  by (simp add: binary64_def)

lemma round_half_up_0: "round_half_up 0 = 0"
  by (simp add: round_half_up_def floor_eq_iff)

section \<open>Coordinate transform: properties\<close>

lemma roundtrip_component:
  assumes s1: "1 / 2 ^ 31 \<le> s" and s2: "s \<le> 1" and x: "\<bar>x\<bar> \<le> 2 ^ 31"
  shows "close_to (1 / (2 * s) + 1 / 2 + 1 / 2 ^ 20)
           (js_round (js_div (js_round (js_mul (Fin x) (Fin s))) (Fin s))) (Fin x)"
proof -
  define t :: rat where "t = 1 / 2 ^ 1075"
  have t: "0 \<le> t" "t \<le> 1 / 2 ^ 54" unfolding t_def by simp_all
  have s0: "0 < s" using s1 by (rule less_le_trans[rotated]) simp
  have inv_s: "1 / s \<le> 2 ^ 31"
  proof -
    have "1 / s \<le> 1 / (1 / 2 ^ 31)" using s1 by (intro divide_left_mono) simp_all
    thus ?thesis by simp
  qed
  define p where "p = x * s"
  have p_abs: "\<bar>p\<bar> = \<bar>x\<bar> * s" using s0 by (simp add: p_def abs_mult)
  have "\<bar>x\<bar> * s \<le> \<bar>x\<bar> * 1" using s2 by (intro mult_left_mono) simp_all
  hence p_le: "\<bar>p\<bar> \<le> 2 ^ 31" using x p_abs by simp
  hence "\<bar>p\<bar> \<le> 2 ^ 64" by simp
  from binary64_close[OF this] obtain y1 where
    y1: "binary64 p = Fin y1" and e1: "\<bar>y1 - p\<bar> \<le> \<bar>p\<bar> / 2 ^ 53 + t"
    unfolding t_def by blast
  define d :: rat where "d = of_int (round_half_up y1)"
  have e2: "\<bar>d - y1\<bar> \<le> 1 / 2" unfolding d_def by (rule round_half_up_err)
  define v where "v = d / s"
  have dp: "\<bar>d - p\<bar> \<le> 1 / 2 + \<bar>p\<bar> / 2 ^ 53 + t" using e1 e2 by linarith
  have "v - x = (d - p) / s" using s0 by (simp add: v_def p_def diff_divide_distrib)
  hence "\<bar>v - x\<bar> = \<bar>d - p\<bar> / s" using s0 by (simp add: abs_divide)
  also have "\<dots> \<le> (1 / 2 + \<bar>p\<bar> / 2 ^ 53 + t) / s"
    using dp s0 by (intro divide_right_mono) simp_all
  also have "\<dots> = 1 / (2 * s) + \<bar>x\<bar> / 2 ^ 53 + t * (1 / s)"
    using s0 by (simp add: p_abs add_divide_distrib)
  finally have vx: "\<bar>v - x\<bar> \<le> 1 / (2 * s) + \<bar>x\<bar> / 2 ^ 53 + t * (1 / s)" .
  have a: "\<bar>x\<bar> / 2 ^ 53 \<le> 1 / 2 ^ 22"
  proof -
    have "\<bar>x\<bar> / 2 ^ 53 \<le> 2 ^ 31 / 2 ^ 53" using x by (intro divide_right_mono) simp_all
    thus ?thesis by simp
  qed
  have b: "t * (1 / s) \<le> 1 / 2 ^ 23"
  proof -
    have "t * (1 / s) \<le> (1 / 2 ^ 54) * 2 ^ 31"
      using t inv_s s0 by (intro mult_mono) simp_all
    thus ?thesis by simp
  qed
  have c: "1 / (2 * s) \<le> 2 ^ 30"
  proof -
    have "1 / (2 * s) = (1 / s) / 2" by simp
    also have "\<dots> \<le> 2 ^ 31 / 2" using inv_s by (intro divide_right_mono) simp_all
    finally show ?thesis by simp
  qed
  have vx': "\<bar>v - x\<bar> \<le> 1 / (2 * s) + 1 / 2 ^ 22 + 1 / 2 ^ 23" using vx a b by linarith
  have v_le: "\<bar>v\<bar> \<le> 2 ^ 32" using vx' c x by (simp add: abs_le_iff)
  hence "\<bar>v\<bar> \<le> 2 ^ 64" by simp
  from binary64_close[OF this] obtain y2 where
    y2: "binary64 v = Fin y2" and e3: "\<bar>y2 - v\<bar> \<le> \<bar>v\<bar> / 2 ^ 53 + t"
    unfolding t_def by blast
  have "\<bar>v\<bar> / 2 ^ 53 \<le> 2 ^ 32 / 2 ^ 53" using v_le by (intro divide_right_mono) simp_all
  hence e3': "\<bar>y2 - v\<bar> \<le> 1 / 2 ^ 21 + 1 / 2 ^ 54" using e3 t by simp
  define r :: rat where "r = of_int (round_half_up y2)"
  have e4: "\<bar>r - y2\<bar> \<le> 1 / 2" unfolding r_def by (rule round_half_up_err)
  have "\<bar>r - x\<bar> \<le> 1 / 2 + (1 / 2 ^ 21 + 1 / 2 ^ 54) + (1 / (2 * s) + 1 / 2 ^ 22 + 1 / 2 ^ 23)"
    using e4 e3' vx' by linarith
  hence fin: "\<bar>r - x\<bar> \<le> 1 / (2 * s) + 1 / 2 + 1 / 2 ^ 20" by simp
  have "js_round (js_div (js_round (js_mul (Fin x) (Fin s))) (Fin s)) = Fin r"
    using s0 y1 y2 by (simp add: p_def[symmetric] d_def[symmetric] v_def[symmetric] r_def)
  thus ?thesis using fin by simp
qed

text \<open>
  C4 (as the code has it). For a scale \<open>s\<close> between \<open>1 / 2 ^ 31\<close> and 1 and a rectangle
  whose components have magnitude at most \<open>2 ^ 31\<close>, converting to display coordinates
  and back changes each component by at most \<open>1 / (2 s) + 1 / 2 + 1 / 2 ^ 20\<close>: the half
  pixel lost by the first \<open>Math.round\<close> is magnified by \<open>1 / s\<close>, the second
  \<open>Math.round\<close> adds half a pixel, and \<open>1 / 2 ^ 20\<close> covers the binary64 rounding of the
  product and of the quotient.
\<close>

theorem coord_roundtrip_bound:
  assumes "1 / 2 ^ 31 \<le> s" and "s \<le> 1" and "scale i = Fin s"
    and "R = \<lparr> left = Fin l, rtop = Fin t, width = Fin w, height = Fin h \<rparr>"
    and "\<bar>l\<bar> \<le> 2 ^ 31" and "\<bar>t\<bar> \<le> 2 ^ 31" and "\<bar>w\<bar> \<le> 2 ^ 31" and "\<bar>h\<bar> \<le> 2 ^ 31"
  shows "rect_close (1 / (2 * s) + 1 / 2 + 1 / 2 ^ 20)
           (displayToOriginalCoords (Some i) (originalToDisplayCoords (Some i) R)) R"
  using assms(3,4) roundtrip_component[OF assms(1,2)] assms(5-8)
  by (simp add: rect_close_def displayToOriginalCoords_def originalToDisplayCoords_def)

theorem coord_roundtrip_bound_witness:
  "rect_close (5 / 2 + 1 / 2 ^ 20)
     (displayToOriginalCoords (Some info_quarter)
        (originalToDisplayCoords (Some info_quarter) rect_10_40))
     rect_10_40"
  using coord_roundtrip_bound[of "1 / 4" info_quarter rect_10_40 10 20 30 40]
  by (simp add: info_quarter_def rect_10_40_def)

text \<open>
  C4 as stated fails: at scale 1/4 the rectangle with all components 2 goes to display
  components \<open>round(0.5) = 1\<close> and comes back as 4, two pixels away. Every number of
  this computation is a binary64 value and every operation on it is exact.
\<close>

theorem coord_roundtrip_counterexample:
  "\<not> rect_close 1
     (displayToOriginalCoords (Some info_quarter)
        (originalToDisplayCoords (Some info_quarter) rect_2))
     rect_2"
  by (simp add: info_quarter_def rect_2_def rect_close_def displayToOriginalCoords_def
      originalToDisplayCoords_def binary64_half binary64_4 round_half_up_def floor_eq_iff)

text \<open>
  C9 (as the code has it). Before image metadata is available (\<open>imageInfo\<close> undefined)
  both conversions return their argument unchanged. The scale itself is not tested: with
  scale 0 and a rectangle of finite components, the conversion to display coordinates
  returns the rectangle of zeros, and the conversion to original coordinates divides each
  component by zero, giving \<open>Infinity\<close> for a positive component, \<open>-Infinity\<close> for a
  negative one and \<open>NaN\<close> for 0.
\<close>

theorem degenerate_scale:
  "displayToOriginalCoords None r = r \<and> originalToDisplayCoords None r = r
   \<and> (scale i = Fin 0 \<longrightarrow>
        originalToDisplayCoords (Some i)
            \<lparr> left = Fin l, rtop = Fin t, width = Fin w, height = Fin h \<rparr>
          = \<lparr> left = Fin 0, rtop = Fin 0, width = Fin 0, height = Fin 0 \<rparr>
      \<and> displayToOriginalCoords (Some i)
            \<lparr> left = Fin l, rtop = Fin t, width = Fin w, height = Fin h \<rparr>
          = \<lparr> left = div_by_zero l, rtop = div_by_zero t,
              width = div_by_zero w, height = div_by_zero h \<rparr>)"
  by (simp add: displayToOriginalCoords_def originalToDisplayCoords_def div_by_zero_def
      binary64_0 round_half_up_0)

theorem degenerate_scale_witness:
  "originalToDisplayCoords (Some info_zero) rect_mixed
     = \<lparr> left = Fin 0, rtop = Fin 0, width = Fin 0, height = Fin 0 \<rparr>
   \<and> displayToOriginalCoords (Some info_zero) rect_mixed
     = \<lparr> left = PInf, rtop = NaN, width = PInf, height = NInf \<rparr>"
  using degenerate_scale[of rect_mixed info_zero 10 0 30 "- 4"]
  by (simp add: info_zero_def rect_mixed_def div_by_zero_def)

text \<open>
  C9 as stated fails: with scale 0 neither conversion is the identity.
\<close>

theorem zero_scale_counterexample:
  "displayToOriginalCoords (Some info_zero) rect_10_40
     = \<lparr> left = PInf, rtop = PInf, width = PInf, height = PInf \<rparr>
   \<and> displayToOriginalCoords (Some info_zero) rect_10_40 \<noteq> rect_10_40
   \<and> originalToDisplayCoords (Some info_zero) rect_10_40
     = \<lparr> left = Fin 0, rtop = Fin 0, width = Fin 0, height = Fin 0 \<rparr>
   \<and> originalToDisplayCoords (Some info_zero) rect_10_40 \<noteq> rect_10_40"
  by (simp add: info_zero_def rect_10_40_def displayToOriginalCoords_def
      originalToDisplayCoords_def binary64_0 round_half_up_0)

section \<open>Region normalizer: properties\<close>





section \<open>Chunked persistence: properties\<close>

subsection \<open>Grouping by image name\<close>

lemma map_of_chunks_push:
  "map_of (chunks_push m nm c) k = (if k = nm then Some (group_of m nm @ [c]) else map_of m k)"
  by (induction m nm c rule: chunks_push.induct) (auto simp: group_of_def)

lemma keys_chunks_push:
  "set (map fst (chunks_push m nm c)) = insert nm (set (map fst m))"
  by (induction m nm c rule: chunks_push.induct) auto

lemma distinct_chunks_push:
  "distinct (map fst m) \<Longrightarrow> distinct (map fst (chunks_push m nm c))"
proof (induction m nm c rule: chunks_push.induct)
  case (1 nm chunk)
  then show ?case by simp
next
  case (2 k g m nm chunk)
  then show ?case using keys_chunks_push[of m nm chunk] by auto
qed

lemma map_of_foldl_push:
  "map_of (foldl (\<lambda>m chunk. chunks_push m (imageName chunk) chunk) m cs) k =
     (if filter (\<lambda>c. imageName c = k) cs = [] then map_of m k
      else Some (group_of m k @ filter (\<lambda>c. imageName c = k) cs))"
proof (induction cs arbitrary: m)
  case Nil
  then show ?case by simp
next
  case (Cons c cs)
  show ?case
    by (simp add: Cons.IH map_of_chunks_push group_of_def)
qed

lemma distinct_foldl_push:
  "distinct (map fst m) \<Longrightarrow>
   distinct (map fst (foldl (\<lambda>m chunk. chunks_push m (imageName chunk) chunk) m cs))"
  by (induction cs arbitrary: m) (simp_all add: distinct_chunks_push)

lemma map_of_group_chunks:
  "map_of (group_chunks cs) k =
     (if filter (\<lambda>c. imageName c = k) cs = [] then None
      else Some (filter (\<lambda>c. imageName c = k) cs))"
  by (simp add: group_chunks_def map_of_foldl_push group_of_def)

lemma distinct_group_chunks: "distinct (map fst (group_chunks cs))"
  by (simp add: group_chunks_def distinct_foldl_push)

lemma filter_map_filter_keyed:
  assumes "distinct (map fst G)"
    and "\<And>k g x. h (k, g) = Some x \<Longrightarrow> key x = k"
  shows "filter (\<lambda>x. key x = n) (List.map_filter h G) =
           (case map_of G n of
              None \<Rightarrow> []
            | Some g \<Rightarrow> (case h (n, g) of None \<Rightarrow> [] | Some x \<Rightarrow> [x]))"
  using assms(1)
proof (induction G)
  case Nil
  then show ?case by (simp add: List.map_filter_simps)
next
  case (Cons p G)
  obtain k g where p: "p = (k, g)" by (cases p)
  show ?case
  proof (cases "k = n")
    case True
    with Cons.prems p have "map_of G n = None"
      by (simp add: map_of_eq_None_iff)
    with Cons p True show ?thesis
      by (auto simp: List.map_filter_simps split: option.splits dest: assms(2))
  next
    case False
    with Cons p show ?thesis
      by (auto simp: List.map_filter_simps split: option.splits dest: assms(2))
  qed
qed

lemma reconstruct_name:
  "reconstructImageFromChunks nm g = Some x \<Longrightarrow> img_name x = nm"
  by (auto simp: reconstructImageFromChunks_def split: list.splits if_splits)

lemma getImageFiles_by_name:
  "filter (\<lambda>x. img_name x = n) (getImageFiles cs fid None) =
     (case filter (\<lambda>c. imageName c = n) (filter (\<lambda>c. folderId c = fid) cs) of
        [] \<Rightarrow> []
      | c # g \<Rightarrow> (case reconstructImageFromChunks n (c # g) of None \<Rightarrow> [] | Some x \<Rightarrow> [x]))"
proof -
  let ?G = "group_chunks (filter (\<lambda>c. folderId c = fid) cs)"
  let ?h = "\<lambda>(nm, imageChunks).
             if in_range None imageChunks then reconstructImageFromChunks nm imageChunks
             else None"
  have key: "\<And>k g x. ?h (k, g) = Some x \<Longrightarrow> img_name x = k"
    by (auto simp: in_range_def dest: reconstruct_name)
  have "filter (\<lambda>x. img_name x = n) (List.map_filter ?h ?G) =
          (case map_of ?G n of
             None \<Rightarrow> []
           | Some g \<Rightarrow> (case ?h (n, g) of None \<Rightarrow> [] | Some x \<Rightarrow> [x]))"
    by (rule filter_map_filter_keyed[OF distinct_group_chunks key])
  moreover have "filter (\<lambda>x. img_name x = n) (getImageFiles cs fid None) =
      sort_key originalIndex (filter (\<lambda>x. img_name x = n) (List.map_filter ?h ?G))"
    by (simp add: getImageFiles_def filter_sort)
  ultimately show ?thesis
    by (auto simp: map_of_group_chunks in_range_def split: list.splits option.splits)
qed

subsection \<open>Splitting and reassembly\<close>

lemma slice_chunk:
  "slice P (k * C) (min (k * C + C) (length P)) = take C (drop (k * C) P)"
  by (cases "k * C + C \<le> length P") (simp_all add: slice_def min_def)

lemma concat_slices:
  "concat (map (\<lambda>ci. slice P (ci * C) (min (ci * C + C) (length P))) [0..<k]) = take (k * C) P"
proof (induction k)
  case 0
  then show ?case by simp
next
  case (Suc k)
  have "take (k * C) P @ take C (drop (k * C) P) = take (k * C + C) P"
    by (simp add: take_add)
  moreover have "Suc k * C = k * C + C" by simp
  ultimately show ?case using Suc by (simp only: upt_Suc_append le0 map_append concat_append
        list.map concat.simps append_Nil2 slice_chunk)
qed

lemma ceil_div_covers: "0 < C \<Longrightarrow> n \<le> ceil_div n C * C"
proof -
  assume C: "0 < C"
  have "n + C - 1 < (n + C - 1) div C * C + C"
    using C by (metis add.commute div_mult_mod_eq add_less_cancel_left mod_less_divisor mult.commute)
  thus ?thesis using C by (simp add: ceil_div_def)
qed

lemma ceil_div_pos: "0 < C \<Longrightarrow> 0 < n \<Longrightarrow> 0 < ceil_div n C"
  by (simp add: ceil_div_def div_greater_zero_iff)

lemma image_chunks_indices:
  "map chunkIndex (image_chunks C fid img idx) = [0..<ceil_div (length (dataURL img)) C]"
  by (simp add: image_chunks_def Let_def comp_def map_idI)

lemma image_chunks_data:
  "0 < C \<Longrightarrow> concat (map chunk_data (image_chunks C fid img idx)) = dataURL img"
  using ceil_div_covers[of C "length (dataURL img)"]
  by (simp add: image_chunks_def Let_def comp_def concat_slices)

lemma image_chunks_length:
  "length (image_chunks C fid img idx) = ceil_div (length (dataURL img)) C"
  by (simp add: image_chunks_def Let_def)

lemma image_chunks_member:
  "c \<in> set (image_chunks C fid img idx) \<Longrightarrow>
     folderId c = fid \<and> imageName c = img_name img \<and> imageIndex c = idx \<and>
     totalChunks c = ceil_div (length (dataURL img)) C \<and>
     chunk_meta c = \<lparr> meta_type = img_type img, meta_size = img_size img,
                       meta_lastModified = img_lastModified img \<rparr>"
  by (auto simp: image_chunks_def Let_def)

lemma sort_image_chunks:
  assumes "mset g = mset (image_chunks C fid img idx)"
  shows "sort_key chunkIndex g = image_chunks C fid img idx"
proof (rule sort_key_inj_key_eq[OF assms])
  have "distinct (map chunkIndex (image_chunks C fid img idx))"
    by (simp add: image_chunks_indices)
  hence "inj_on chunkIndex (set (image_chunks C fid img idx))"
    by (simp add: distinct_map)
  thus "inj_on chunkIndex (set g)" using assms by (metis mset_eq_setD)
  show "sorted (map chunkIndex (image_chunks C fid img idx))"
    by (simp add: image_chunks_indices)
qed

lemma reconstruct_image_chunks:
  assumes "0 < C" and "dataURL img \<noteq> []"
    and "mset g = mset (image_chunks C fid img idx)"
  shows "reconstructImageFromChunks (img_name img) g = Some (img \<lparr> originalIndex := idx \<rparr>)"
proof -
  let ?cs = "image_chunks C fid img idx"
  have len: "0 < length ?cs"
    using assms(1,2) by (simp add: image_chunks_length ceil_div_pos)
  then obtain c0 rest where cs: "?cs = c0 # rest" by (cases ?cs) auto
  hence "c0 \<in> set ?cs" by simp
  note m = image_chunks_member[OF this]
  have "length (c0 # rest) = totalChunks c0"
    using m image_chunks_length[of C fid img idx] cs by simp
  moreover have "concat (map chunk_data (c0 # rest)) = dataURL img"
    using image_chunks_data[OF assms(1), of fid img idx] cs by simp
  ultimately show ?thesis
    using m cs by (simp add: reconstructImageFromChunks_def sort_image_chunks[OF assms(3)])
qed

text \<open>
  The records that the loop of \<open>saveImageInChunks\<close> builds for a non-empty payload are
  right (\<open>reconstruct_image_chunks\<close>: in whatever order they came back, reassembly would
  give the payload). They do not reach the store: the loop runs on a finished transaction.
\<close>

lemma saveImageInChunks_raises:
  assumes "dataURL img \<noteq> []"
  shows "saveImageInChunks chunkSize store fid img idx
           = Raised TransactionInactiveError (deleteImageChunks store fid (img_name img))"
proof (cases "chunkSize = 0")
  case True
  with assms show ?thesis by (simp add: saveImageInChunks_def)
next
  case False
  hence "0 < length (image_chunks chunkSize fid img idx)"
    using assms by (simp add: image_chunks_length ceil_div_pos)
  then obtain r rs where "image_chunks chunkSize fid img idx = r # rs"
    by (cases "image_chunks chunkSize fid img idx") auto
  with False show ?thesis by (simp add: saveImageInChunks_def Let_def store_add_def)
qed

text \<open>
  C2 fails on the code. For the ten-character payload of \<open>a.png\<close> and chunk size 4,
  \<open>saveImageInChunks\<close> is rejected with \<open>TransactionInactiveError\<close> at the first
  \<open>store.add\<close>: the older chunk of the image has been deleted and no new chunk has been
  written, from an empty store as well. Reassembly then finds no record of the image and
  returns nothing, not the payload.
\<close>

theorem chunk_write_raises:
  "saveImageInChunks 4 old_store 1 img_a 0 = Raised TransactionInactiveError []
   \<and> saveImageInChunks 4 [] 1 img_a 0 = Raised TransactionInactiveError []
   \<and> reconstructImageFromChunks ''a.png'' [] = None
   \<and> getImageFiles [] 1 None = []"
proof -
  have "dataURL img_a \<noteq> []" by (simp add: img_a_def)
  hence "saveImageInChunks 4 st 1 img_a 0
           = Raised TransactionInactiveError (deleteImageChunks st 1 (img_name img_a))" for st
    by (rule saveImageInChunks_raises)
  thus ?thesis
    by (simp add: deleteImageChunks_def old_store_def img_a_def reconstructImageFromChunks_def
        getImageFiles_def group_chunks_def List.map_filter_simps)
qed

subsection \<open>Incomplete chunk sets\<close>

text \<open>
  C3. \<open>getImageFiles\<close> is a total function of the stored records: it always returns a
  list. An image of the folder whose records all carry, as \<open>totalChunks\<close>, the number of
  records stored for it appears in the result exactly once, its payload the concatenation
  of the chunk data in \<open>chunkIndex\<close> order. An image whose records carry a
  \<open>totalChunks\<close> greater than the number of records stored for it is omitted.
\<close>

theorem partial_chunk_isolation:
  "(filter (\<lambda>c. folderId c = fid \<and> imageName c = n) cs \<noteq> [] \<and>
    (\<forall>c \<in> set (filter (\<lambda>c. folderId c = fid \<and> imageName c = n) cs).
        totalChunks c = length (filter (\<lambda>c. folderId c = fid \<and> imageName c = n) cs))
    \<longrightarrow> (\<exists>x. filter (\<lambda>x. img_name x = n) (getImageFiles cs fid None) = [x] \<and>
             dataURL x = concat (map chunk_data (sort_key chunkIndex
                           (filter (\<lambda>c. folderId c = fid \<and> imageName c = n) cs)))))
   \<and> ((\<forall>c \<in> set (filter (\<lambda>c. folderId c = fid \<and> imageName c = n) cs).
         length (filter (\<lambda>c. folderId c = fid \<and> imageName c = n) cs) < totalChunks c)
      \<longrightarrow> n \<notin> img_name ` set (getImageFiles cs fid None))"
proof -
  let ?g = "filter (\<lambda>c. folderId c = fid \<and> imageName c = n) cs"
  let ?s = "sort_key chunkIndex ?g"
  have g: "filter (\<lambda>c. imageName c = n) (filter (\<lambda>c. folderId c = fid) cs) = ?g"
    by (simp add: conj_commute)
  have by_name: "filter (\<lambda>x. img_name x = n) (getImageFiles cs fid None) =
     (if ?g = [] then [] else (case reconstructImageFromChunks n ?g of None \<Rightarrow> [] | Some x \<Rightarrow> [x]))"
    unfolding getImageFiles_by_name g by (simp split: list.splits)
  have 1: "\<exists>x. filter (\<lambda>x. img_name x = n) (getImageFiles cs fid None) = [x] \<and>
             dataURL x = concat (map chunk_data ?s)"
    if ne: "?g \<noteq> []" and all: "\<forall>c \<in> set ?g. totalChunks c = length ?g"
  proof -
    have "length ?s = length ?g" by simp
    with ne obtain c0 rest where s: "?s = c0 # rest" by (cases ?s) auto
    hence "c0 \<in> set ?s" by simp
    hence "c0 \<in> set ?g" by (simp del: set_filter)
    with all have "totalChunks c0 = length ?s" by simp
    thus ?thesis using s ne by (simp add: by_name reconstructImageFromChunks_def)
  qed
  have 2: "n \<notin> img_name ` set (getImageFiles cs fid None)"
    if all: "\<forall>c \<in> set ?g. length ?g < totalChunks c"
  proof -
    have "reconstructImageFromChunks n ?g = None"
    proof (cases ?s)
      case Nil
      then show ?thesis by (simp add: reconstructImageFromChunks_def)
    next
      case (Cons c0 rest)
      hence "c0 \<in> set ?s" by simp
      hence "c0 \<in> set ?g" by (simp del: set_filter)
      with all have "length ?s < totalChunks c0" by simp
      with Cons show ?thesis by (simp add: reconstructImageFromChunks_def)
    qed
    hence "filter (\<lambda>x. img_name x = n) (getImageFiles cs fid None) = []"
      by (simp add: by_name)
    thus ?thesis by (auto simp: filter_empty_conv)
  qed
  from 1 2 show ?thesis by blast
qed

theorem partial_chunk_isolation_witness:
  "(\<exists>x. filter (\<lambda>x. img_name x = ''a.png'') (getImageFiles store3 1 None) = [x] \<and>
        dataURL x = ''hello'')
   \<and> (\<exists>x. filter (\<lambda>x. img_name x = ''c.png'') (getImageFiles store3 1 None) = [x] \<and>
        dataURL x = ''xyz'')
   \<and> ''b.png'' \<notin> img_name ` set (getImageFiles store3 1 None)"
  using partial_chunk_isolation[of 1 "''a.png''" store3]
    partial_chunk_isolation[of 1 "''c.png''" store3]
    partial_chunk_isolation[of 1 "''b.png''" store3]
  by (simp add: store3_def)

section \<open>Annotation store: properties\<close>
















text \<open>
  C8 fails on the code. Identifiers are \<open>Date.now() + index\<close> for seeded annotations
  and \<open>Date.now()\<close> for manual ones. Three regions seeded at time 1000 take the
  identifiers 1000, 1001 and 1002; a manual annotation added at time 1002 takes 1002 again.
  Two manual annotations added within the same millisecond share their identifier.
\<close>

theorem annotation_id_collision:
  "map ann_id (get_annotations
      (addNewTextItem (loadImageAnnotations fmempty ocr_three ''a.jpg'' 1000) ''a.jpg'' 1002)
      ''a.jpg'') = [1000, 1001, 1002, 1002]
   \<and> map ann_id (get_annotations
      (addNewTextItem (addNewTextItem fmempty ''a.jpg'' 1000) ''a.jpg'' 1000) ''a.jpg'')
      = [1000, 1000]"
  by (simp add: addNewTextItem_def loadImageAnnotations_def get_annotations_def ocr_three_def
      seed_annotations_def enumerate_eq_zip upt_rec[of _ 3] upt_rec[of _ "Suc _"])

section \<open>Folder store: properties\<close>

lemma or_default_truthy: "d \<noteq> [] \<Longrightarrow> truthy_str (Some (or_default s d))"
  by (auto simp: or_default_def truthy_str_def split: option.splits)

lemma saveFolder_key:
  "saveFolder (Some st) fd now = Inr (st', r) \<Longrightarrow>
     \<exists>k. folder_id r = Some k \<and> (0 < keygen st \<longrightarrow> 0 < k) \<and>
         r = (folderRecord fd now) \<lparr> folder_id := Some k \<rparr> \<and> st' = store_put st k r"
  by (auto simp: saveFolder_def Let_def split: option.splits)

lemma folderRecord_ok: "0 < k \<Longrightarrow> stored_ok k ((folderRecord fd now) \<lparr> folder_id := Some k \<rparr>)"
  by (simp add: stored_ok_def folderRecord_def or_default_truthy or_empty_list_def
      or_empty_obj_def split: option.splits)

lemma wf_empty_store: "wf_store empty_store"
  by (simp add: wf_store_def empty_store_def)

lemma saveFolder_wf:
  assumes "wf_store st" and "saveFolder (Some st) fd now = Inr (st', r)"
  shows "wf_store st'"
proof -
  from saveFolder_key[OF assms(2)] assms(1) obtain k where k: "0 < k"
    and r: "r = (folderRecord fd now) \<lparr> folder_id := Some k \<rparr>" and st': "st' = store_put st k r"
    by (auto simp: wf_store_def)
  have "stored_ok k r" unfolding r by (rule folderRecord_ok[OF k])
  thus ?thesis using assms(1) by (auto simp: st' wf_store_def store_put_def)
qed

lemma save_new: "saveFolder (Some empty_store) folder_new ''2024-01-01'' = Inr (store_one, rec_one)"
  by (simp add: saveFolder_def empty_store_def folder_new_def folderRecord_def store_put_def
      store_one_def rec_one_def or_default_def truthy_str_def or_empty_list_def or_empty_obj_def
      object_keys_length_def Let_def fcard_fempty numeral_2_eq_2)

lemma rec_one_ok: "stored_ok 1 rec_one"
  by (simp add: stored_ok_def rec_one_def truthy_str_def or_empty_list_def or_empty_obj_def
      object_keys_length_def fcard_fempty)

text \<open>
  C5. On an initialised database \<open>saveFolder\<close> returns, and whenever it returns, the
  record it has persisted (under the record's \<open>id\<close>) has \<open>metadata.totalImages\<close> equal
  to the length of its \<open>imageFiles\<close>, \<open>metadata.processedImages\<close> equal to the number of
  keys of its \<open>ocrResults\<close> and \<open>metadata.calibratedImages\<close> equal to the number of keys
  of its \<open>annotations\<close>, whatever counters the folder passed in carried.
\<close>

theorem saveFolder_counters:
  "(\<exists>st' r. saveFolder (Some st) folderData now = Inr (st', r))
   \<and> (\<forall>db' r. saveFolder db folderData now = Inr (db', r) \<longrightarrow>
        (\<exists>il oc an k.
            imageFiles r = Some il \<and> ocrResults r = Some oc \<and> annotations r = Some an \<and>
            metadata r = Some \<lparr> totalImages = length il,
                                 processedImages = fcard (fmdom oc),
                                 calibratedImages = fcard (fmdom an) \<rparr> \<and>
            folder_id r = Some k \<and> fmlookup (records db') k = Some r))"
  by (auto simp: saveFolder_def Let_def folderRecord_def store_put_def object_keys_length_def
      or_empty_list_def split: option.splits)

theorem saveFolder_counters_witness:
  "\<exists>st' r. saveFolder (Some empty_store) folder_new ''2024-01-01'' = Inr (st', r) \<and>
      imageFiles r = Some [jpg_a, jpg_b] \<and>
      metadata r = Some \<lparr> totalImages = 2, processedImages = 0, calibratedImages = 0 \<rparr> \<and>
      fmlookup (records st') 1 = Some r"
proof -
  from saveFolder_counters[of empty_store folder_new "''2024-01-01''" "Some empty_store"]
  obtain il oc an k where
    "imageFiles rec_one = Some il" "ocrResults rec_one = Some oc" "annotations rec_one = Some an"
    "metadata rec_one = Some \<lparr> totalImages = length il, processedImages = fcard (fmdom oc),
                                calibratedImages = fcard (fmdom an) \<rparr>"
    "folder_id rec_one = Some k" "fmlookup (records store_one) k = Some rec_one"
    using save_new by blast
  thus ?thesis using save_new by (simp add: rec_one_def)
qed

lemma fcard_ocr_both: "fcard (fmdom ocr_both) = 2"
  by (simp add: ocr_both_def ocr_one_def fcard_finsert_if fcard_fempty)

lemma save_part:
  "saveFolder (Some empty_store) folder_part ''2024-01-01'' = Inr (store_part, rec_part)"
  by (simp add: saveFolder_def empty_store_def folder_part_def folderRecord_def store_put_def
      store_part_def rec_part_def or_default_def truthy_str_def or_empty_list_def
      or_empty_obj_def object_keys_length_def Let_def fcard_fempty fcard_ocr_both
      numeral_2_eq_2 numeral_3_eq_3)

lemma rec_part_ok: "stored_ok 1 rec_part"
  by (simp add: stored_ok_def rec_part_def truthy_str_def or_empty_list_def or_empty_obj_def
      object_keys_length_def fcard_fempty fcard_ocr_both)

text \<open>
  C10. For a folder record of the store, \<open>updateFolderOCRResults\<close> returns and persists
  under the same key a record whose \<open>ocrResults\<close> is the old map overridden by the new
  one (an image name of the new map takes the new result, every other name keeps the old
  one), whose \<open>processedImages\<close> is the number of keys of the merged map, and whose
  status is \<open>processed\<close> if that number equals \<open>metadata.totalImages\<close> and the old
  status otherwise.
\<close>

theorem updateFolderOCRResults_merges:
  assumes "fmlookup (records st) k = Some f" and "stored_ok k f"
  shows "\<exists>st' r old md.
           ocrResults f = Some old \<and> metadata f = Some md \<and>
           updateFolderOCRResults (Some st) k newResults now saveNow = Inr (st', r) \<and>
           fmlookup (records st') k = Some r \<and>
           ocrResults r = Some (old ++\<^sub>f newResults) \<and>
           (\<forall>n. fmlookup (old ++\<^sub>f newResults) n =
                  (case fmlookup newResults n of Some v \<Rightarrow> Some v | None \<Rightarrow> fmlookup old n)) \<and>
           map_option processedImages (metadata r) = Some (fcard (fmdom (old ++\<^sub>f newResults))) \<and>
           map_option totalImages (metadata r) = Some (totalImages md) \<and>
           status r = (if fcard (fmdom (old ++\<^sub>f newResults)) = totalImages md
                       then Some ''processed'' else status f)"
proof -
  from assms(2) obtain old md where old: "ocrResults f = Some old" and md: "metadata f = Some md"
    and k: "0 < k" and fid: "folder_id f = Some k" and st: "truthy_str (status f)"
    and tot: "totalImages md = length (or_empty_list (imageFiles f))"
    by (auto simp: stored_ok_def)
  from st obtain s0 where stat: "status f = Some s0" "s0 \<noteq> []"
    by (auto simp: truthy_str_def split: option.splits)
  have look: "fmlookup (old ++\<^sub>f newResults) n =
                (case fmlookup newResults n of Some v \<Rightarrow> Some v | None \<Rightarrow> fmlookup old n)" for n
    by (auto simp: fmlookup_dom_iff split: option.splits)
  show ?thesis
    using assms(1) old md k fid tot stat look
    by (simp add: updateFolderOCRResults_def getFolderById_def saveFolder_def Let_def
        folderRecord_def store_put_def object_keys_length_def or_empty_obj_def
        or_default_def truthy_str_def or_empty_list_def split: option.splits)
qed

theorem updateFolderOCRResults_merges_witness:
  "(\<exists>st' r m. updateFolderOCRResults (Some store_part) 1 ocr_three ''t2'' ''t3'' = Inr (st', r) \<and>
       fmlookup (records st') 1 = Some r \<and> ocrResults r = Some m \<and>
       fmlookup m ''a.jpg'' = Some \<lparr> words_result = Some [item_hi, item_hi, item_hi] \<rparr> \<and>
       fmlookup m ''b.jpg'' = Some \<lparr> words_result = Some [] \<rparr> \<and>
       fmlookup m ''c.jpg'' = None \<and>
       map_option processedImages (metadata r) = Some 2 \<and> status r = Some ''unprocessed'')
   \<and> (\<exists>st' r m. updateFolderOCRResults (Some store_part) 1 ocr_c ''t2'' ''t3'' = Inr (st', r) \<and>
       fmlookup (records st') 1 = Some r \<and> ocrResults r = Some m \<and>
       fmlookup m ''a.jpg'' = Some \<lparr> words_result = Some [item_hi] \<rparr> \<and>
       fmlookup m ''b.jpg'' = Some \<lparr> words_result = Some [] \<rparr> \<and>
       fmlookup m ''c.jpg'' = Some \<lparr> words_result = Some [item_hi, item_hi] \<rparr> \<and>
       map_option processedImages (metadata r) = Some 3 \<and> status r = Some ''processed'')"
proof -
  have l: "fmlookup (records store_part) 1 = Some rec_part" by (simp add: store_part_def)
  have c1: "fcard (fmdom (ocr_both ++\<^sub>f ocr_three)) = 2"
    by (simp add: ocr_both_def ocr_one_def ocr_three_def fcard_finsert_if fcard_fempty)
  have c2: "fcard (fmdom (ocr_both ++\<^sub>f ocr_c)) = 3"
    by (simp add: ocr_both_def ocr_one_def ocr_c_def fcard_finsert_if fcard_fempty)
  have l1: "fmlookup (ocr_both ++\<^sub>f ocr_three) ''a.jpg''
              = Some \<lparr> words_result = Some [item_hi, item_hi, item_hi] \<rparr>"
    "fmlookup (ocr_both ++\<^sub>f ocr_three) ''b.jpg'' = Some \<lparr> words_result = Some [] \<rparr>"
    "fmlookup (ocr_both ++\<^sub>f ocr_three) ''c.jpg'' = None"
    by (simp_all add: ocr_both_def ocr_one_def ocr_three_def)
  have l2: "fmlookup (ocr_both ++\<^sub>f ocr_c) ''a.jpg'' = Some \<lparr> words_result = Some [item_hi] \<rparr>"
    "fmlookup (ocr_both ++\<^sub>f ocr_c) ''b.jpg'' = Some \<lparr> words_result = Some [] \<rparr>"
    "fmlookup (ocr_both ++\<^sub>f ocr_c) ''c.jpg'' = Some \<lparr> words_result = Some [item_hi, item_hi] \<rparr>"
    by (simp_all add: ocr_both_def ocr_one_def ocr_c_def)
  from updateFolderOCRResults_merges[OF l rec_part_ok, of ocr_three "''t2''" "''t3''"]
  have A: "\<exists>st' r m. updateFolderOCRResults (Some store_part) 1 ocr_three ''t2'' ''t3'' = Inr (st', r) \<and>
       fmlookup (records st') 1 = Some r \<and> ocrResults r = Some m \<and>
       fmlookup m ''a.jpg'' = Some \<lparr> words_result = Some [item_hi, item_hi, item_hi] \<rparr> \<and>
       fmlookup m ''b.jpg'' = Some \<lparr> words_result = Some [] \<rparr> \<and>
       fmlookup m ''c.jpg'' = None \<and>
       map_option processedImages (metadata r) = Some 2 \<and> status r = Some ''unprocessed''"
    using c1 l1 by (auto simp: rec_part_def)
  from updateFolderOCRResults_merges[OF l rec_part_ok, of ocr_c "''t2''" "''t3''"]
  have B: "\<exists>st' r m. updateFolderOCRResults (Some store_part) 1 ocr_c ''t2'' ''t3'' = Inr (st', r) \<and>
       fmlookup (records st') 1 = Some r \<and> ocrResults r = Some m \<and>
       fmlookup m ''a.jpg'' = Some \<lparr> words_result = Some [item_hi] \<rparr> \<and>
       fmlookup m ''b.jpg'' = Some \<lparr> words_result = Some [] \<rparr> \<and>
       fmlookup m ''c.jpg'' = Some \<lparr> words_result = Some [item_hi, item_hi] \<rparr> \<and>
       map_option processedImages (metadata r) = Some 3 \<and> status r = Some ''processed''"
    using c2 l2 by (auto simp: rec_part_def)
  from A B show ?thesis by blast
qed

section \<open>Export: properties\<close>

lemma lookup_foldl_fmupd:
  "fmlookup (foldl (\<lambda>m x. fmupd (key x) (g (key x)) m) m0 xs) n =
     (if n \<in> key ` set xs then Some (g n) else fmlookup m0 n)"
  by (induction xs arbitrary: m0) auto

lemma processExportData_lookup:
  "fmlookup (processExportData f) n =
     (if n \<in> img_name ` set (or_empty_list (imageFiles f)) then Some (export_image f n) else None)"
  unfolding processExportData_def by (simp add: lookup_foldl_fmupd)

text \<open>
  C6 (as the code has it). For an image of the folder with a calibrated annotation list,
  the export entry has \<open>annotationsAdded\<close> the number of manual regions,
  \<open>annotationsDeleted = max(0, originalCount - (calibratedCount - manualCount))\<close> and
  \<open>totalEdits = |originalCount - calibratedCount| + manualCount\<close>. If the image also has
  an OCR result, \<open>textChanged\<close> holds exactly when the two counts differ or the texts of
  the regions that are not manual differ from the original OCR texts.
\<close>

text \<open>
  The export entry of an image with a calibrated annotation list: \<open>annotationsAdded\<close>
  is the number of manual regions,
  \<open>annotationsDeleted = max(0, originalCount - (calibratedCount - manualCount))\<close>,
  \<open>totalEdits = |originalCount - calibratedCount| + manualCount\<close>, and \<open>textChanged\<close>
  holds exactly when the image has no OCR result, or the two counts differ, or the texts
  of the regions that are not manual differ from the original OCR texts.
\<close>

lemma export_modifications:
  assumes "imageFiles f = Some files" and "imageFile \<in> set files"
    and "fmlookup (or_empty_obj (annotations f)) (img_name imageFile) = Some a"
  shows "\<exists>d. fmlookup (processExportData f) (img_name imageFile) = Some d \<and>
           annotationsAdded (image_modifications d)
             = int (length (filter isManual (calibrated_regions f (img_name imageFile)))) \<and>
           annotationsDeleted (image_modifications d)
             = max 0 (int (length (original_ocr_items f (img_name imageFile)))
                      - (int (length (calibrated_regions f (img_name imageFile)))
                         - int (length (filter isManual (calibrated_regions f (img_name imageFile)))))) \<and>
           totalEdits (image_modifications d)
             = \<bar>int (length (original_ocr_items f (img_name imageFile)))
                 - int (length (calibrated_regions f (img_name imageFile)))\<bar>
               + int (length (filter isManual (calibrated_regions f (img_name imageFile)))) \<and>
           textChanged (image_modifications d)
             = (fmlookup (or_empty_obj (ocrResults f)) (img_name imageFile) = None
                \<or> length (calibrated_regions f (img_name imageFile))
                     \<noteq> length (original_ocr_items f (img_name imageFile))
                \<or> map ann_text (filter (\<lambda>r. \<not> isManual r)
                         (calibrated_regions f (img_name imageFile)))
                     \<noteq> map (\<lambda>item. Some (text_or_words item))
                         (original_ocr_items f (img_name imageFile)))"
proof -
  have "img_name imageFile \<in> img_name ` set (or_empty_list (imageFiles f))"
    using assms(1,2) by (simp add: or_empty_list_def)
  hence "fmlookup (processExportData f) (img_name imageFile)
           = Some (export_image f (img_name imageFile))"
    by (simp add: processExportData_lookup)
  moreover have "calibrated_regions f (img_name imageFile) = or_empty_list (textRegions a)"
    using assms(3) by (simp add: calibrated_regions_def)
  ultimately show ?thesis
    using assms(3)
    by (auto simp: export_image_def Let_def original_ocr_items_def stringify_differs_def
        original_region_of_def comp_def or_empty_list_def split: option.splits)
qed

lemma export_modifications_example:
  "\<exists>d. fmlookup (processExportData folder_edited) ''a.jpg'' = Some d \<and>
       annotationsAdded (image_modifications d) = 1 \<and>
       annotationsDeleted (image_modifications d) = 2 \<and>
       totalEdits (image_modifications d) = 2 \<and>
       textChanged (image_modifications d)"
proof -
  have 1: "imageFiles folder_edited = Some [jpg_a, jpg_b]" and 2: "jpg_a \<in> set [jpg_a, jpg_b]"
    and 3: "fmlookup (or_empty_obj (annotations folder_edited)) (img_name jpg_a)
              = Some \<lparr> ia_imageName = ''a.jpg'',
                        textRegions = Some [ann_hi 1000, ann_manual 5000] \<rparr>"
    by (simp_all add: folder_edited_def rec_one_def jpg_a_def or_empty_obj_def)
  have 4: "calibrated_regions folder_edited ''a.jpg'' = [ann_hi 1000, ann_manual 5000]"
    and 5: "original_ocr_items folder_edited ''a.jpg'' = [item_hi, item_hi, item_hi]"
    and 6: "fmlookup (or_empty_obj (ocrResults folder_edited)) ''a.jpg'' \<noteq> None"
    by (simp_all add: calibrated_regions_def original_ocr_items_def folder_edited_def
        rec_one_def or_empty_obj_def or_empty_list_def ocr_three_def)
  from export_modifications[OF 1 2 3] 4 5 6 show ?thesis
    by (auto simp: jpg_a_def ann_hi_def ann_manual_def)
qed

text \<open>
  C6 as stated fails for an image without OCR result whose calibrated list is empty: the
  counts are both 0 and there is no text on either side, yet \<open>textChanged\<close> is true,
  because the serialisation of the missing original texts is \<open>undefined\<close>.
\<close>

text \<open>
  C6 fails on the code. An image without OCR result whose calibrated list is empty has
  both counts 0 and no text on either side, so by the claim \<open>textChanged\<close> is false; the
  code gives true, because the serialisation of the missing original texts is
  \<open>undefined\<close>, which differs from the serialisation \<open>[]\<close> of the empty list.
\<close>

theorem export_textChanged_without_ocr:
  "map_option (\<lambda>d. textChanged (image_modifications d))
      (fmlookup (processExportData folder_no_ocr) ''a.jpg'') = Some True
   \<and> original_ocr_items folder_no_ocr ''a.jpg'' = []
   \<and> calibrated_regions folder_no_ocr ''a.jpg'' = []"
  by (simp add: processExportData_lookup export_image_def folder_no_ocr_def rec_one_def
      or_empty_list_def or_empty_obj_def jpg_a_def jpg_b_def stringify_differs_def
      original_ocr_items_def calibrated_regions_def)

end
